theory Spec2Isabelle
  imports Main "HOL-Library.Word" "HOL-Library.AList"
begin

unbundle bit_operations_syntax

section \<open>Data model of the polling coordinator\<close>

text \<open>
  The embedded program is \<^verbatim>\<open>PollingCoordinator\<close> of
  \<^verbatim>\<open>custom_components/bluetti_bt/coordinator.py\<close>: the notification handler
  \<^verbatim>\<open>_notification_handler\<close> and the poll cycle \<^verbatim>\<open>_async_update_data\<close>.
  Byte strings (\<^verbatim>\<open>bytes\<close>, \<^verbatim>\<open>bytearray\<close>) are lists of 8-bit words.
\<close>

type_synonym byte = "8 word"
type_synonym bytes = "byte list"

text \<open>
  Exceptions are values. One constructor stands for one exception class as the
  \<^verbatim>\<open>except\<close> clauses of the source tell them apart; the string is the message.
  \<^verbatim>\<open>CancelledError\<close> is what awaiting a cancelled future raises, \<^verbatim>\<open>OtherError\<close>
  is any exception class the source names nowhere.
\<close>

datatype exn =
    TimeoutError
  | ParseError string
  | ModbusError string
  | BadConnectionError string
  | BleakError string
  | CancelledError
  | IndexError
  | AttributeError
  | OtherError string

text \<open>
  An \<^verbatim>\<open>asyncio.Future\<close>: unset, set with a result, set with an exception, or
  cancelled. \<^verbatim>\<open>done()\<close> is true for everything but the unset future.
\<close>

datatype future = Pending | Resolved bytes | Failed exn | Cancelled

fun future_done :: "future \<Rightarrow> bool" where
  "future_done Pending = False"
| "future_done (Resolved r) = True"
| "future_done (Failed e) = True"
| "future_done Cancelled = True"

text \<open>
  A command of the device catalog (the library class \<^verbatim>\<open>DeviceCommand\<close>). The
  coordinator only calls its methods, so the command is a record of them:
  \<^verbatim>\<open>bytes(command)\<close>, \<^verbatim>\<open>str(command)\<close>, \<^verbatim>\<open>starting_address\<close>,
  \<^verbatim>\<open>response_size()\<close>, \<^verbatim>\<open>is_valid_response\<close>, \<^verbatim>\<open>is_exception_response\<close> and
  \<^verbatim>\<open>parse_response\<close> (which may raise).
\<close>

record command =
  cmd_bytes :: bytes
  cmd_str :: string
  starting_address :: nat
  response_size :: int
  is_valid_response :: "bytes \<Rightarrow> bool"
  is_exception_response :: "bytes \<Rightarrow> bool"
  parse_response :: "bytes \<Rightarrow> exn + bytes"

text \<open>
  The device model returned by \<^verbatim>\<open>build_device\<close>: its ordered polling commands and
  its \<^verbatim>\<open>parse(starting_address, body)\<close>, which returns a dict of fields (an
  association list, keys in insertion order) or raises.
\<close>

record 'v device =
  polling_commands :: "command list"
  parse :: "nat \<Rightarrow> bytes \<Rightarrow> exn + (string \<times> 'v) list"

text \<open>
  The instance attributes that \<^verbatim>\<open>__init__\<close> sets: \<^verbatim>\<open>_address\<close>,
  \<^verbatim>\<open>notify_future\<close> (\<^verbatim>\<open>None\<close> at first), \<^verbatim>\<open>current_command\<close> (\<^verbatim>\<open>None\<close> at
  first), \<^verbatim>\<open>notify_response\<close> and \<^verbatim>\<open>bluetti_device\<close> (\<^verbatim>\<open>None\<close> when
  \<^verbatim>\<open>build_device\<close> knows no such device type).
\<close>

record 'v coordinator =
  address :: string
  notify_future :: "future option"
  current_command :: "command option"
  notify_response :: bytes
  bluetti_device :: "'v device option"

definition init_coordinator :: "string \<Rightarrow> 'v device option \<Rightarrow> 'v coordinator" where
  "init_coordinator addr built =
     \<lparr>address = addr, notify_future = None, current_command = None,
      notify_response = [], bluetti_device = built\<rparr>"

section \<open>The notification handler\<close>

text \<open>The two byte strings \<^verbatim>\<open>b"AT+NAME?\r"\<close> and \<^verbatim>\<open>b"AT+ADV?\r"\<close>.\<close>

definition AT_NAME :: bytes where
  "AT_NAME = [0x41, 0x54, 0x2B, 0x4E, 0x41, 0x4D, 0x45, 0x3F, 0x0D]"

definition AT_ADV :: bytes where
  "AT_ADV = [0x41, 0x54, 0x2B, 0x41, 0x44, 0x56, 0x3F, 0x0D]"

text \<open>Decimal rendering of a Python int in an f-string.\<close>

definition digit_char :: "nat \<Rightarrow> char" where
  "digit_char d = ''0123456789'' ! d"

fun str_nat :: "nat \<Rightarrow> string" where
  "str_nat n = (if n < 10 then [digit_char n]
                else str_nat (n div 10) @ [digit_char (n mod 10)])"

declare str_nat.simps [simp del]

definition modbus_msg :: "command \<Rightarrow> byte \<Rightarrow> string" where
  "modbus_msg cmd code =
     ''MODBUS Exception '' @ cmd_str cmd @ '': '' @ str_nat (unat code)"

text \<open>
  \<^verbatim>\<open>_notification_handler(self, _sender, data)\<close>. The result is the exception the call
  raises (\<^verbatim>\<open>None\<close> when it returns) and the coordinator as the call leaves it: the
  handler extends \<^verbatim>\<open>notify_response\<close> before any line that can raise, so a raising
  call still has changed the accumulator.
  \<^item> \<^verbatim>\<open>self.current_command.response_size()\<close> raises \<^verbatim>\<open>AttributeError\<close> when
    \<^verbatim>\<open>current_command\<close> is \<^verbatim>\<open>None\<close>;
  \<^item> \<^verbatim>\<open>self.notify_response[2]\<close> raises \<^verbatim>\<open>IndexError\<close> when the accumulator holds
    fewer than three bytes.
\<close>

definition notification_handler ::
  "'v coordinator \<Rightarrow> bytes \<Rightarrow> exn option \<times> 'v coordinator" where
  "notification_handler self data =
     (case notify_future self of
        None \<Rightarrow> (None, self)
      | Some fut \<Rightarrow>
          if future_done fut then (None, self)
          else if data = AT_NAME \<or> data = AT_ADV then
            (None, self\<lparr>notify_future :=
                     Some (Failed (BadConnectionError ''Got AT+ notification''))\<rparr>)
          else
            (let self1 = self\<lparr>notify_response := notify_response self @ data\<rparr>;
                 acc = notify_response self1
             in case current_command self1 of
                  None \<Rightarrow> (Some AttributeError, self1)
                | Some cmd \<Rightarrow>
                    if int (length acc) = response_size cmd then
                      (if is_valid_response cmd acc
                       then (None, self1\<lparr>notify_future := Some (Resolved acc)\<rparr>)
                       else (None, self1\<lparr>notify_future :=
                                      Some (Failed (ParseError ''Failed checksum''))\<rparr>))
                    else if is_exception_response cmd acc then
                      (if length acc < 3 then (Some IndexError, self1)
                       else (None, self1\<lparr>notify_future :=
                                      Some (Failed (ModbusError (modbus_msg cmd (acc ! 2))))\<rparr>))
                    else (None, self1)))"

text \<open>
  The Bluetooth stack calls the handler once per notification; an exception raised
  inside the callback does not reach the coroutine that waits on the future, so a
  delivery keeps the coordinator as the handler left it.
\<close>

definition deliver :: "'v coordinator \<Rightarrow> bytes \<Rightarrow> 'v coordinator" where
  "deliver self data = snd (notification_handler self data)"

definition feed :: "'v coordinator \<Rightarrow> bytes list \<Rightarrow> 'v coordinator" where
  "feed self chunks = foldl deliver self chunks"

text \<open>
  Preparing a request, lines 79 to 81 of the source: the active command, a fresh
  future and an empty accumulator.
\<close>

definition begin_request :: "'v coordinator \<Rightarrow> command \<Rightarrow> 'v coordinator" where
  "begin_request self cmd =
     self\<lparr>current_command := Some cmd, notify_future := Some Pending,
          notify_response := []\<rparr>"

section \<open>The poll cycle\<close>

text \<open>
  What a call to a collaborator does: it returns, it raises, or (for an awaited call
  inside \<^verbatim>\<open>async with async_timeout.timeout(15)\<close>) the 15 second timer expires
  while the call is awaited. In the last case the coroutine is cancelled at that
  await; the \<^verbatim>\<open>CancelledError\<close> is a \<^verbatim>\<open>BaseException\<close>, which none of the
  \<^verbatim>\<open>except\<close> clauses inside the block names, and the context manager turns it into
  \<^verbatim>\<open>TimeoutError\<close> when the block is left.
\<close>

datatype 'a outcome = Returns 'a | Raises exn | CycleTimeout

text \<open>
  What the link does while one command is processed: the outcome of
  \<^verbatim>\<open>write_gatt_char\<close>, the notifications that arrive while the coroutine waits on
  \<^verbatim>\<open>notify_future\<close>, and whether, should the future still be unset after them, the
  cycle timer expires before \<^verbatim>\<open>RESPONSE_TIMEOUT\<close> does.
\<close>

record exchange =
  write_outcome :: "unit outcome"
  chunks :: "bytes list"
  deadline :: bool

text \<open>
  The collaborators of one cycle: the Bluetooth lookup of the address (\<^verbatim>\<open>None\<close> when
  the device is not in range; the handle is a number), \<^verbatim>\<open>connect\<close>,
  \<^verbatim>\<open>start_notify\<close>, the exchange of the command at each position of the polling
  list, and \<^verbatim>\<open>disconnect\<close>, which is awaited outside the timeout block and so
  returns (\<^verbatim>\<open>None\<close>) or raises.
\<close>

record cycle_env =
  async_ble_device_from_address :: "string \<Rightarrow> nat option"
  connect_outcome :: "unit outcome"
  start_notify_outcome :: "unit outcome"
  exchanges :: "nat \<Rightarrow> exchange"
  disconnect_outcome :: "exn option"

text \<open>The calls made on the \<^verbatim>\<open>BleakClient\<close>, in the order they are made.\<close>

datatype event = Connect | StartNotify | WriteGattChar bytes | Disconnect

text \<open>
  \<^verbatim>\<open>asyncio.wait_for(self.notify_future, timeout=RESPONSE_TIMEOUT)\<close> once the
  notifications of the exchange have been handled: the result or the exception of a
  set future; for an unset one the wait ends by a timeout, and \<^verbatim>\<open>wait_for\<close> cancels
  the future it waited on.
\<close>

definition wait_for :: "'v coordinator \<Rightarrow> bool \<Rightarrow> bytes outcome \<times> 'v coordinator" where
  "wait_for self expires =
     (case notify_future self of
        None \<Rightarrow> (Raises (OtherError ''TypeError''), self)
      | Some Pending \<Rightarrow>
          (if expires then CycleTimeout else Raises TimeoutError,
           self\<lparr>notify_future := Some Cancelled\<rparr>)
      | Some (Resolved res) \<Rightarrow> (Returns res, self)
      | Some (Failed err) \<Rightarrow> (Raises err, self)
      | Some Cancelled \<Rightarrow> (Raises CancelledError, self))"

text \<open>
  \<^verbatim>\<open>parsed_data.update(parsed)\<close>: every item of \<^verbatim>\<open>parsed\<close> is stored, a key already
  present keeps its place and takes the new value.
\<close>

definition dict_update :: "(string \<times> 'v) list \<Rightarrow> (string \<times> 'v) list \<Rightarrow> (string \<times> 'v) list" where
  "dict_update d new = foldl (\<lambda>acc kv. AList.update (fst kv) (snd kv) acc) d new"

text \<open>
  The body of the inner \<^verbatim>\<open>try\<close>, lines 78 to 103, for one command: prepare the
  request, write it, wait for the response, parse it. The device model is the
  \<^verbatim>\<open>self.bluetti_device\<close> that the cycle found not to be \<^verbatim>\<open>None\<close>; nothing assigns
  that attribute after \<^verbatim>\<open>__init__\<close>.
\<close>

definition request ::
  "'v device \<Rightarrow> command \<Rightarrow> exchange \<Rightarrow> 'v coordinator
     \<Rightarrow> (string \<times> 'v) list outcome \<times> 'v coordinator \<times> event list" where
  "request dev cmd ex self =
     (let self1 = begin_request self cmd;
          evs = [WriteGattChar (cmd_bytes cmd)]
      in case write_outcome ex of
           Raises err \<Rightarrow> (Raises err, self1, evs)
         | CycleTimeout \<Rightarrow> (CycleTimeout, self1, evs)
         | Returns u \<Rightarrow>
             (case wait_for (feed self1 (chunks ex)) (deadline ex) of
                (Raises err, self2) \<Rightarrow> (Raises err, self2, evs)
              | (CycleTimeout, self2) \<Rightarrow> (CycleTimeout, self2, evs)
              | (Returns res, self2) \<Rightarrow>
                  (case parse_response cmd res of
                     Inl err \<Rightarrow> (Raises err, self2, evs)
                   | Inr body \<Rightarrow>
                       (case parse dev (starting_address cmd) body of
                          Inl err \<Rightarrow> (Raises err, self2, evs)
                        | Inr parsed \<Rightarrow> (Returns parsed, self2, evs)))))"

text \<open>
  The four \<^verbatim>\<open>except\<close> clauses of the inner \<^verbatim>\<open>try\<close>, lines 105 to 116. Each of
  them only logs, so the loop goes on with the next command.
\<close>

fun caught_in_loop :: "exn \<Rightarrow> bool" where
  "caught_in_loop TimeoutError = True"
| "caught_in_loop (ParseError m) = True"
| "caught_in_loop (ModbusError m) = True"
| "caught_in_loop (BadConnectionError m) = True"
| "caught_in_loop (BleakError m) = True"
| "caught_in_loop CancelledError = False"
| "caught_in_loop IndexError = False"
| "caught_in_loop AttributeError = False"
| "caught_in_loop (OtherError m) = False"

text \<open>
  The \<^verbatim>\<open>for\<close> loop over the polling commands, from position \<open>i\<close> on. The result
  says how the loop is left (\<^verbatim>\<open>Returns ()\<close> when it runs to its end), and gives the
  coordinator, \<^verbatim>\<open>parsed_data\<close> and the calls made.
\<close>

fun poll_loop ::
  "'v device \<Rightarrow> (nat \<Rightarrow> exchange) \<Rightarrow> nat \<Rightarrow> command list \<Rightarrow> 'v coordinator
     \<Rightarrow> (string \<times> 'v) list
     \<Rightarrow> unit outcome \<times> 'v coordinator \<times> (string \<times> 'v) list \<times> event list" where
  "poll_loop dev exs i [] self parsed_data = (Returns (), self, parsed_data, [])"
| "poll_loop dev exs i (cmd # cmds) self parsed_data =
     (case request dev cmd (exs i) self of
        (Returns parsed, self1, evs) \<Rightarrow>
          (case poll_loop dev exs (Suc i) cmds self1 (dict_update parsed_data parsed) of
             (out, self2, pd, evs2) \<Rightarrow> (out, self2, pd, evs @ evs2))
      | (Raises err, self1, evs) \<Rightarrow>
          if caught_in_loop err then
            (case poll_loop dev exs (Suc i) cmds self1 parsed_data of
               (out, self2, pd, evs2) \<Rightarrow> (out, self2, pd, evs @ evs2))
          else (Raises err, self1, parsed_data, evs)
      | (CycleTimeout, self1, evs) \<Rightarrow> (CycleTimeout, self1, parsed_data, evs))"

text \<open>
  The block under \<^verbatim>\<open>async with async_timeout.timeout(15)\<close>, lines 69 to 116:
  connect, subscribe, then the loop.
\<close>

definition timed_block ::
  "cycle_env \<Rightarrow> 'v device \<Rightarrow> 'v coordinator
     \<Rightarrow> unit outcome \<times> 'v coordinator \<times> (string \<times> 'v) list \<times> event list" where
  "timed_block env dev self =
     (case connect_outcome env of
        Raises err \<Rightarrow> (Raises err, self, [], [Connect])
      | CycleTimeout \<Rightarrow> (CycleTimeout, self, [], [Connect])
      | Returns u \<Rightarrow>
          (case start_notify_outcome env of
             Raises err \<Rightarrow> (Raises err, self, [], [Connect, StartNotify])
           | CycleTimeout \<Rightarrow> (CycleTimeout, self, [], [Connect, StartNotify])
           | Returns u \<Rightarrow>
               (case poll_loop dev (exchanges env) 0 (polling_commands dev) self [] of
                  (out, self1, pd, evs) \<Rightarrow> (out, self1, pd, [Connect, StartNotify] @ evs))))"

text \<open>
  The outer \<^verbatim>\<open>except\<close> clauses, lines 117 to 122, and the \<^verbatim>\<open>return parsed_data\<close>
  of line 127: what the cycle is about to return or raise when the \<^verbatim>\<open>finally\<close>
  clause starts. \<^verbatim>\<open>Inl\<close> is an exception on its way to the caller, \<^verbatim>\<open>Inr None\<close>
  is \<^verbatim>\<open>return None\<close>.
\<close>

fun after_block :: "unit outcome \<Rightarrow> (string \<times> 'v) list \<Rightarrow> exn + (string \<times> 'v) list option" where
  "after_block (Returns u) parsed_data = Inr (Some parsed_data)"
| "after_block CycleTimeout parsed_data = Inr None"
| "after_block (Raises TimeoutError) parsed_data = Inr None"
| "after_block (Raises (BleakError m)) parsed_data = Inr None"
| "after_block (Raises err) parsed_data = Inl err"

text \<open>
  \<^verbatim>\<open>_async_update_data\<close>. The result is what the call returns or raises, the
  coordinator afterwards, and the calls made on the client. The \<^verbatim>\<open>finally\<close> clause
  awaits \<^verbatim>\<open>disconnect\<close> on every way out of the \<^verbatim>\<open>try\<close>; an exception it raises
  replaces the pending return or exception.
\<close>

definition async_update_data ::
  "cycle_env \<Rightarrow> 'v coordinator
     \<Rightarrow> (exn + (string \<times> 'v) list option) \<times> 'v coordinator \<times> event list" where
  "async_update_data env self =
     (case async_ble_device_from_address env (address self) of
        None \<Rightarrow> (Inr None, self, [])
      | Some device \<Rightarrow>
          (case bluetti_device self of
             None \<Rightarrow> (Inr None, self, [])
           | Some dev \<Rightarrow>
               (case timed_block env dev self of
                  (out, self1, parsed_data, evs) \<Rightarrow>
                    (case disconnect_outcome env of
                       None \<Rightarrow> after_block out parsed_data
                     | Some err \<Rightarrow> Inl err,
                     self1, evs @ [Disconnect]))))"

section \<open>A sample catalog entry\<close>

text \<open>
  Concrete runs need a concrete command. The sample is shaped after a Modbus
  read-holding-registers command with function code 3: the response carries a 3 byte
  header, two bytes per register and a 2 byte little-endian CRC-16; an exception frame
  has the function code plus \<^verbatim>\<open>0x80\<close> in its second byte.
\<close>

definition crc_shift :: "16 word \<Rightarrow> 16 word" where
  "crc_shift c = (if bit c 0 then drop_bit 1 c XOR 0xA001 else drop_bit 1 c)"

definition crc_byte :: "16 word \<Rightarrow> byte \<Rightarrow> 16 word" where
  "crc_byte c b = (crc_shift ^^ 8) (c XOR ucast b)"

definition modbus_crc :: "bytes \<Rightarrow> 16 word" where
  "modbus_crc bs = foldl crc_byte 0xFFFF bs"

definition crc_bytes :: "bytes \<Rightarrow> bytes" where
  "crc_bytes bs = [ucast (modbus_crc bs), ucast (drop_bit 8 (modbus_crc bs))]"

definition sample_valid :: "bytes \<Rightarrow> bool" where
  "sample_valid r =
     (if length r < 3 then False
      else drop (length r - 2) r = crc_bytes (take (length r - 2) r))"

definition sample_exception :: "bytes \<Rightarrow> bool" where
  "sample_exception r = (if length r < 2 then False else r ! 1 = 0x83)"

definition read_registers :: "nat \<Rightarrow> nat \<Rightarrow> command" where
  "read_registers addr qty =
     \<lparr>cmd_bytes = [1, 3, of_nat (addr div 256), of_nat addr, of_nat (qty div 256), of_nat qty]
                  @ crc_bytes [1, 3, of_nat (addr div 256), of_nat addr,
                               of_nat (qty div 256), of_nat qty],
      cmd_str = ''ReadHoldingRegisters(starting_address='' @ str_nat addr
                @ '', quantity='' @ str_nat qty @ '')'',
      starting_address = addr,
      response_size = 2 * int qty + 5,
      is_valid_response = sample_valid,
      is_exception_response = sample_exception,
      parse_response = (\<lambda>r. Inr (take (length r - 5) (drop 3 r)))\<rparr>"

text \<open>The same command with an exception test that wants the error-code byte present.\<close>

definition guarded_read :: command where
  "guarded_read =
     (read_registers 10 2)\<lparr>is_exception_response :=
        (\<lambda>r. if length r < 3 then False else r ! 1 = 0x83)\<rparr>"

definition frame :: "bytes \<Rightarrow> bytes" where
  "frame b = b @ crc_bytes b"

text \<open>
  A sample device model with three one-register reads; its \<^verbatim>\<open>parse\<close> decodes the
  body as big-endian 16-bit registers keyed by their address.
\<close>

fun reg_fields :: "nat \<Rightarrow> bytes \<Rightarrow> (string \<times> int) list" where
  "reg_fields a (hi # lo # rest) =
     (''r'' @ str_nat a, 256 * uint hi + uint lo) # reg_fields (Suc a) rest"
| "reg_fields a rest = []"

definition sample_device :: "int device" where
  "sample_device =
     \<lparr>polling_commands = [read_registers 10 1, read_registers 20 1, read_registers 30 1],
      parse = (\<lambda>a body. Inr (reg_fields a body))\<rparr>"

definition sample_coordinator :: "int coordinator" where
  "sample_coordinator = init_coordinator ''AA:BB:CC:DD:EE:FF'' (Some sample_device)"

text \<open>
  Sample exchanges: the write returns and the given notifications arrive; the device
  stays silent until the response timeout; the device stays silent and the cycle
  timer expires first.
\<close>

definition answered :: "bytes list \<Rightarrow> exchange" where
  "answered cs = \<lparr>write_outcome = Returns (), chunks = cs, deadline = False\<rparr>"

definition silent :: exchange where
  "silent = answered []"

definition overdue :: exchange where
  "overdue = \<lparr>write_outcome = Returns (), chunks = [], deadline = True\<rparr>"

text \<open>An exchange whose write raises an exception of a class the source does not name.\<close>

definition broken :: exchange where
  "broken = \<lparr>write_outcome = Raises (OtherError ''ValueError''), chunks = [], deadline = False\<rparr>"

definition sample_env :: "(nat \<Rightarrow> exchange) \<Rightarrow> exn option \<Rightarrow> cycle_env" where
  "sample_env exs disc =
     \<lparr>async_ble_device_from_address = (\<lambda>a. Some 0),
      connect_outcome = Returns (), start_notify_outcome = Returns (),
      exchanges = exs, disconnect_outcome = disc\<rparr>"

text \<open>
  Sample responses to a one-register read (register values 100 and 256), and three
  sample links for the polling list of the sample device:
  \<^item> \<open>faulty_link\<close>: the first command is answered, the second meets
    \<^verbatim>\<open>b"AT+ADV?\r"\<close>, the third is answered;
  \<^item> \<open>slow_link\<close>: the first command is answered, the second gets no response,
    and the cycle timer expires during the third;
  \<^item> \<open>patchy_link\<close>: the first command is answered in two notifications, the
    second gets no response, the third is answered.
\<close>

definition reply_100 :: bytes where
  "reply_100 = frame [1, 3, 2, 0, 100]"

definition reply_256 :: bytes where
  "reply_256 = frame [1, 3, 2, 1, 0]"

text \<open>
  A frame of nine bytes with a valid checksum whose second byte is the exception
  code of function 3.
\<close>

definition odd_reply :: bytes where
  "odd_reply = frame [1, 0x83, 2, 0, 0, 0, 0]"

text \<open>
  A valid response to a one-register read followed by two stray bytes, and an
  exception frame of five bytes (exception code 2).
\<close>

definition long_reply :: bytes where
  "long_reply = reply_100 @ [0, 0]"

definition exception_reply :: bytes where
  "exception_reply = frame [1, 0x83, 2]"

definition faulty_link :: "nat \<Rightarrow> exchange" where
  "faulty_link j =
     (if j = 0 then answered [reply_100]
      else if j = 1 then answered [AT_ADV]
      else answered [reply_256])"

definition slow_link :: "nat \<Rightarrow> exchange" where
  "slow_link j =
     (if j = 0 then answered [reply_100]
      else if j = 1 then silent
      else overdue)"

text \<open>
  \<open>broken_link\<close>: the first command gets no response, the write of the second raises,
  and the third would run into the cycle timer.
\<close>

definition broken_link :: "nat \<Rightarrow> exchange" where
  "broken_link j =
     (if j = 0 then silent
      else if j = 1 then broken
      else overdue)"

definition patchy_link :: "nat \<Rightarrow> exchange" where
  "patchy_link j =
     (if j = 0 then answered [take 4 reply_100, drop 4 reply_100]
      else if j = 1 then silent
      else answered [reply_256])"

section \<open>Notions used to state the properties\<close>

text \<open>
  How the processing of one command ends. \<^verbatim>\<open>request\<close> starts by replacing the
  future, the command and the accumulator, so the end does not depend on the
  coordinator it starts from (lemma \<open>request_outcome\<close> below); it is read off a run
  from a freshly built coordinator.
\<close>

definition command_outcome ::
  "'v device \<Rightarrow> command \<Rightarrow> exchange \<Rightarrow> (string \<times> 'v) list outcome" where
  "command_outcome dev cmd ex = fst (request dev cmd ex (init_coordinator [] (Some dev)))"

text \<open>The loop goes on after the command: it succeeded or raised what the loop catches.\<close>

fun goes_on :: "'a outcome \<Rightarrow> bool" where
  "goes_on (Returns x) = True"
| "goes_on (Raises err) = caught_in_loop err"
| "goes_on CycleTimeout = False"

text \<open>
  The exception classes of the first three \<^verbatim>\<open>except\<close> clauses of the inner
  \<^verbatim>\<open>try\<close>, lines 105 to 114: response timeout, parse error, protocol exception.
\<close>

fun recoverable :: "exn \<Rightarrow> bool" where
  "recoverable TimeoutError = True"
| "recoverable (ParseError m) = True"
| "recoverable (ModbusError m) = True"
| "recoverable (BadConnectionError m) = False"
| "recoverable (BleakError m) = False"
| "recoverable CancelledError = False"
| "recoverable IndexError = False"
| "recoverable AttributeError = False"
| "recoverable (OtherError m) = False"

text \<open>The command succeeded or raised one of these three.\<close>

fun recovers :: "'a outcome \<Rightarrow> bool" where
  "recovers (Returns x) = True"
| "recovers (Raises err) = recoverable err"
| "recovers CycleTimeout = False"

text \<open>The outcome is not an exception that the loop lets through.\<close>

fun no_escape :: "'a outcome \<Rightarrow> bool" where
  "no_escape (Returns x) = True"
| "no_escape (Raises err) = caught_in_loop err"
| "no_escape CycleTimeout = True"

text \<open>
  \<^verbatim>\<open>connect\<close> or \<^verbatim>\<open>start_notify\<close> returns, runs into the cycle timer, or raises one
  of the two exception classes of the outer \<^verbatim>\<open>except\<close> clauses.
\<close>

fun caught_outside :: "unit outcome \<Rightarrow> bool" where
  "caught_outside (Returns u) = True"
| "caught_outside CycleTimeout = True"
| "caught_outside (Raises TimeoutError) = True"
| "caught_outside (Raises (BleakError m)) = True"
| "caught_outside (Raises err) = False"

text \<open>
  The fields of the commands that succeeded, merged in the order of the polling list:
  a command that did not return parsed fields adds nothing.
\<close>

fun merged_fields ::
  "'v device \<Rightarrow> (nat \<Rightarrow> exchange) \<Rightarrow> nat \<Rightarrow> command list \<Rightarrow> (string \<times> 'v) list
     \<Rightarrow> (string \<times> 'v) list" where
  "merged_fields dev exs i [] pd = pd"
| "merged_fields dev exs i (cmd # cmds) pd =
     merged_fields dev exs (Suc i) cmds
       (case command_outcome dev cmd (exs i) of
          Returns parsed \<Rightarrow> dict_update pd parsed
        | Raises err \<Rightarrow> pd
        | CycleTimeout \<Rightarrow> pd)"

text \<open>
  Two coordinators agree on the three attributes the handler reads and writes.
\<close>

definition same_slot :: "'v coordinator \<Rightarrow> 'v coordinator \<Rightarrow> bool" where
  "same_slot a b =
     (notify_future a = notify_future b \<and> current_command a = current_command b
      \<and> notify_response a = notify_response b)"

section \<open>Properties of the notification handler\<close>

lemma notification_handler_settled:
  "notify_future self = None \<or> (\<exists>fut. notify_future self = Some fut \<and> future_done fut)
   \<Longrightarrow> notification_handler self data = (None, self)"
  by (auto simp: notification_handler_def)

lemma deliver_settled:
  "notify_future self = None \<or> (\<exists>fut. notify_future self = Some fut \<and> future_done fut)
   \<Longrightarrow> deliver self data = self"
  by (simp add: deliver_def notification_handler_settled)

lemma feed_settled:
  "notify_future self = None \<or> (\<exists>fut. notify_future self = Some fut \<and> future_done fut)
   \<Longrightarrow> feed self cs = self"
  by (induction cs) (simp_all add: feed_def deliver_settled)

lemma notification_handler_bad_connection:
  "notify_future self = Some Pending \<Longrightarrow> data = AT_NAME \<or> data = AT_ADV \<Longrightarrow>
   notification_handler self data =
     (None, self\<lparr>notify_future := Some (Failed (BadConnectionError ''Got AT+ notification''))\<rparr>)"
  by (auto simp: notification_handler_def)

lemma notification_handler_append:
  "notify_future self = Some Pending \<Longrightarrow> data \<noteq> AT_NAME \<Longrightarrow> data \<noteq> AT_ADV \<Longrightarrow>
   current_command self = Some cmd \<Longrightarrow> acc = notify_response self @ data \<Longrightarrow>
   notification_handler self data =
     (if int (length acc) = response_size cmd then
        (None, self\<lparr>notify_response := acc,
                    notify_future := Some (if is_valid_response cmd acc then Resolved acc
                                           else Failed (ParseError ''Failed checksum''))\<rparr>)
      else if is_exception_response cmd acc then
        (if length acc < 3 then (Some IndexError, self\<lparr>notify_response := acc\<rparr>)
         else (None, self\<lparr>notify_response := acc,
                         notify_future := Some (Failed (ModbusError (modbus_msg cmd (acc ! 2))))\<rparr>))
      else (None, self\<lparr>notify_response := acc\<rparr>))"
  by (simp add: notification_handler_def Let_def)

lemma sample_valid_frame: "b \<noteq> [] \<Longrightarrow> sample_valid (frame b)"
  by (cases b) (simp_all add: sample_valid_def frame_def crc_bytes_def)

lemma short_not_AT: "length data < 8 \<Longrightarrow> data \<noteq> AT_NAME \<and> data \<noteq> AT_ADV"
  by (auto simp: AT_NAME_def AT_ADV_def)

text \<open>
  Claim C3. When the pending result slot is already settled (the future is done:
  resolved, failed or cancelled) or absent (\<^verbatim>\<open>notify_future\<close> is \<^verbatim>\<open>None\<close>), a call
  of the handler with any chunk returns without raising and leaves the whole
  coordinator, so the slot and the accumulator, as it was; the same holds for any
  sequence of further notifications.
\<close>

theorem settled_slot_ignores_notifications:
  assumes "notify_future self = None \<or> (\<exists>fut. notify_future self = Some fut \<and> future_done fut)"
  shows "notification_handler self data = (None, self) \<and> feed self cs = self"
  using assms by (simp add: notification_handler_settled feed_settled)

theorem settled_slot_ignores_notifications_witness:
  "(notify_future (sample_coordinator\<lparr>notify_future := Some (Resolved [1, 3, 2])\<rparr>) = None
      \<or> (\<exists>fut. notify_future (sample_coordinator\<lparr>notify_future := Some (Resolved [1, 3, 2])\<rparr>) = Some fut
               \<and> future_done fut))
   \<and> notification_handler (sample_coordinator\<lparr>notify_future := Some (Resolved [1, 3, 2])\<rparr>) AT_NAME
       = (None, sample_coordinator\<lparr>notify_future := Some (Resolved [1, 3, 2])\<rparr>)
   \<and> feed (sample_coordinator\<lparr>notify_future := Some (Resolved [1, 3, 2])\<rparr>) [[1, 3], AT_ADV, [7]]
       = sample_coordinator\<lparr>notify_future := Some (Resolved [1, 3, 2])\<rparr>"
  using settled_slot_ignores_notifications
    [of "sample_coordinator\<lparr>notify_future := Some (Resolved [1, 3, 2])\<rparr>" AT_NAME "[[1, 3], AT_ADV, [7]]"]
  by simp

text \<open>
  Claim C5. For an unset future and any accumulator, a chunk equal to
  \<^verbatim>\<open>b"AT+NAME?\r"\<close> or \<^verbatim>\<open>b"AT+ADV?\r"\<close> sets the future to the exception
  \<^verbatim>\<open>BadConnectionError\<close> at once; nothing else changes, so the chunk is not appended
  to the accumulator.
\<close>

theorem bad_connection_settles_failed:
  assumes "notify_future self = Some Pending" and "data = AT_NAME \<or> data = AT_ADV"
  shows "notification_handler self data =
           (None, self\<lparr>notify_future := Some (Failed (BadConnectionError ''Got AT+ notification''))\<rparr>)
         \<and> notify_response (snd (notification_handler self data)) = notify_response self"
  using assms by (simp add: notification_handler_bad_connection)

theorem bad_connection_settles_failed_witness:
  "notify_future (sample_coordinator\<lparr>notify_future := Some Pending, notify_response := [1, 3]\<rparr>) = Some Pending
   \<and> (AT_ADV = AT_NAME \<or> AT_ADV = AT_ADV)
   \<and> notification_handler (sample_coordinator\<lparr>notify_future := Some Pending, notify_response := [1, 3]\<rparr>) AT_ADV
       = (None, sample_coordinator\<lparr>notify_future := Some (Failed (BadConnectionError ''Got AT+ notification'')),
                                   notify_response := [1, 3]\<rparr>)"
  using bad_connection_settles_failed
    [of "sample_coordinator\<lparr>notify_future := Some Pending, notify_response := [1, 3]\<rparr>" AT_ADV]
  by simp

lemma notification_handler_no_raise:
  assumes "\<forall>buf. is_exception_response cmd buf \<longrightarrow> 3 \<le> length buf"
    and "current_command self = Some cmd"
  shows "fst (notification_handler self data) = None"
  using assms by (auto simp: notification_handler_def Let_def split: option.splits)

lemma notification_handler_index_error:
  assumes "notify_future self = Some Pending" and "current_command self = Some cmd"
    and "is_exception_response cmd (notify_response self @ data)"
    and "length (notify_response self @ data) < 3"
    and "int (length (notify_response self @ data)) \<noteq> response_size cmd"
  shows "notification_handler self data =
           (Some IndexError, self\<lparr>notify_response := notify_response self @ data\<rparr>)"
proof -
  from assms(4) have "length data < 8" by simp
  then have "data \<noteq> AT_NAME" "data \<noteq> AT_ADV" using short_not_AT by blast+
  with assms show ?thesis
    by (simp add: notification_handler_append)
qed

text \<open>
  Claim C10. The exception-frame branch reads \<^verbatim>\<open>notify_response[2]\<close> with no length
  guard. If every buffer that the command's exception test accepts has at least three
  bytes, no call of the handler with that command raises. Without that, the read is
  out of range: whenever the handler reaches the branch with an accepted accumulator
  of fewer than three bytes (the future unset, the length not the expected one), the
  call raises \<^verbatim>\<open>IndexError\<close> after it has extended the accumulator.
\<close>

theorem exception_branch_index_guard:
  "((\<forall>buf. is_exception_response cmd buf \<longrightarrow> 3 \<le> length buf) \<longrightarrow>
      (\<forall>(self :: 'v coordinator) data.
          current_command self = Some cmd \<longrightarrow> fst (notification_handler self data) = None))
   \<and> (\<forall>(self :: 'v coordinator) data.
          notify_future self = Some Pending \<and> current_command self = Some cmd
          \<and> is_exception_response cmd (notify_response self @ data)
          \<and> length (notify_response self @ data) < 3
          \<and> int (length (notify_response self @ data)) \<noteq> response_size cmd
          \<longrightarrow> notification_handler self data =
                (Some IndexError, self\<lparr>notify_response := notify_response self @ data\<rparr>))"
  using notification_handler_no_raise notification_handler_index_error by blast


theorem exception_branch_index_guard_witness:
  "fst (notification_handler (begin_request sample_coordinator guarded_read) [1, 0x83]) = None
   \<and> notification_handler (begin_request sample_coordinator (read_registers 10 2)) [1, 0x83]
       = (Some IndexError,
          (begin_request sample_coordinator (read_registers 10 2))\<lparr>notify_response := [1, 0x83]\<rparr>)"
proof -
  have guarded: "\<forall>buf. is_exception_response guarded_read buf \<longrightarrow> 3 \<le> length buf"
    by (simp add: guarded_read_def)
  have "current_command (begin_request sample_coordinator guarded_read) = Some guarded_read"
    by (simp add: begin_request_def)
  with guarded have first:
    "fst (notification_handler (begin_request sample_coordinator guarded_read) [1, 0x83]) = None"
    using exception_branch_index_guard [of guarded_read] by blast
  have "notify_future (begin_request sample_coordinator (read_registers 10 2)) = Some Pending
        \<and> current_command (begin_request sample_coordinator (read_registers 10 2))
            = Some (read_registers 10 2)
        \<and> is_exception_response (read_registers 10 2)
            (notify_response (begin_request sample_coordinator (read_registers 10 2)) @ [1, 0x83])
        \<and> length (notify_response (begin_request sample_coordinator (read_registers 10 2))
                    @ [1, 0x83 :: byte]) < 3
        \<and> int (length (notify_response (begin_request sample_coordinator (read_registers 10 2))
                         @ [1, 0x83 :: byte])) \<noteq> response_size (read_registers 10 2)"
    by (simp add: begin_request_def read_registers_def sample_exception_def)
  then have
    "notification_handler (begin_request sample_coordinator (read_registers 10 2)) [1, 0x83]
       = (Some IndexError,
          (begin_request sample_coordinator (read_registers 10 2))
            \<lparr>notify_response :=
               notify_response (begin_request sample_coordinator (read_registers 10 2))
                 @ [1, 0x83]\<rparr>)"
    using exception_branch_index_guard [of "read_registers 10 2"] by blast
  then have second:
    "notification_handler (begin_request sample_coordinator (read_registers 10 2)) [1, 0x83]
       = (Some IndexError,
          (begin_request sample_coordinator (read_registers 10 2))\<lparr>notify_response := [1, 0x83]\<rparr>)"
    by (simp add: begin_request_def)
  from first second show ?thesis by simp
qed

text \<open>
  Claim C4. At a chunk that leaves an accumulator of two bytes which the command's
  exception test accepts, the handler does not set the future to a protocol error:
  the call raises \<^verbatim>\<open>IndexError\<close> and the request stays pending, with the chunk
  appended.
\<close>

theorem short_exception_frame_raises:
  "notification_handler (begin_request sample_coordinator (read_registers 10 2)) [1, 0x83]
     = (Some IndexError,
        sample_coordinator\<lparr>current_command := Some (read_registers 10 2),
                           notify_future := Some Pending, notify_response := [1, 0x83]\<rparr>)"
proof -
  have "[1, 0x83 :: byte] \<noteq> AT_NAME" "[1, 0x83 :: byte] \<noteq> AT_ADV"
    using short_not_AT [of "[1, 0x83]"] by simp_all
  then show ?thesis
    by (simp add: notification_handler_append [where cmd = "read_registers 10 2" and acc = "[1, 0x83]"]
        begin_request_def) (simp add: read_registers_def sample_exception_def)
qed

lemma deliver_response_length:
  "length (notify_response (deliver self c)) \<le> length (notify_response self) + length c"
  by (simp add: deliver_def notification_handler_def Let_def split: option.splits)

lemma feed_response_length:
  "length (notify_response (feed self cs)) \<le> length (notify_response self) + length (concat cs)"
proof (induction cs arbitrary: self)
  case Nil
  then show ?case by (simp add: feed_def)
next
  case (Cons c cs)
  have "length (notify_response (feed (deliver self c) cs))
        \<le> length (notify_response (deliver self c)) + length (concat cs)"
    by (rule Cons.IH)
  also have "\<dots> \<le> length (notify_response self) + length c + length (concat cs)"
    using deliver_response_length [of self c] by simp
  finally show ?case by (simp add: feed_def)
qed

lemma feed_Cons: "feed self (c # cs) = feed (deliver self c) cs"
  by (simp add: feed_def)

lemma feed_chunked:
  assumes "notify_future self = Some Pending" and "current_command self = Some cmd"
    and "cs \<noteq> []" and "AT_NAME \<notin> set cs" and "AT_ADV \<notin> set cs"
    and "whole = notify_response self @ concat cs"
    and "int (length whole) = response_size cmd"
    and "\<forall>n<length whole. \<not> is_exception_response cmd (take n whole)"
  shows "feed self cs =
           self\<lparr>notify_response := whole,
                notify_future := Some (if is_valid_response cmd whole then Resolved whole
                                       else Failed (ParseError ''Failed checksum''))\<rparr>"
  using assms
proof (induction cs arbitrary: self)
  case Nil
  then show ?case by simp
next
  case (Cons c cs)
  let ?acc = "notify_response self @ c"
  from Cons.prems have not_at: "c \<noteq> AT_NAME" "c \<noteq> AT_ADV" by auto
  have whole: "whole = ?acc @ concat cs" using Cons.prems by simp
  then have len: "length whole = length ?acc + length (concat cs)"
    by (simp only: length_append)
  show ?case
  proof (cases "int (length ?acc) = response_size cmd")
    case True
    with len Cons.prems(7) have "length (concat cs) = 0" by linarith
    then have "concat cs = []" by (simp only: length_0_conv)
    with whole have acc: "?acc = whole" by simp
    have step: "deliver self c =
        self\<lparr>notify_response := whole,
             notify_future := Some (if is_valid_response cmd whole then Resolved whole
                                    else Failed (ParseError ''Failed checksum''))\<rparr>"
      using Cons.prems(1,2) not_at True acc
      by (simp add: deliver_def notification_handler_append [where cmd = cmd and acc = ?acc])
    have "feed (deliver self c) cs = deliver self c"
      by (rule feed_settled) (simp add: step)
    with step show ?thesis by (simp add: feed_Cons)
  next
    case False
    with len Cons.prems(7) have shorter: "length ?acc < length whole" by linarith
    then have "\<not> is_exception_response cmd (take (length ?acc) whole)"
      using Cons.prems by blast
    with whole have no_exc: "\<not> is_exception_response cmd ?acc" by simp
    have step: "deliver self c = self\<lparr>notify_response := ?acc\<rparr>"
      using Cons.prems(1,2) not_at False no_exc
      by (simp add: deliver_def notification_handler_append [where cmd = cmd and acc = ?acc])
    from shorter len have "cs \<noteq> []" by auto
    with Cons.prems whole step have
      "feed (deliver self c) cs =
         (deliver self c)\<lparr>notify_response := whole,
              notify_future := Some (if is_valid_response cmd whole then Resolved whole
                                     else Failed (ParseError ''Failed checksum''))\<rparr>"
      by (intro Cons.IH) simp_all
    with step show ?thesis by (simp add: feed_Cons)
  qed
qed

lemma deliver_pending_append:
  assumes "notify_future self = Some Pending" and "current_command self = Some cmd"
    and "c \<noteq> AT_NAME" and "c \<noteq> AT_ADV"
  shows "notify_response (deliver self c) = notify_response self @ c"
    and "current_command (deliver self c) = Some cmd"
    and "int (length (notify_response self @ c)) = response_size cmd
         \<Longrightarrow> \<exists>fut. notify_future (deliver self c) = Some fut \<and> future_done fut"
  using assms
  by (simp_all add: deliver_def
      notification_handler_append [where cmd = cmd and acc = "notify_response self @ c"])

lemma feed_outcome:
  assumes "notify_future self = Some Pending" and "current_command self = Some cmd"
    and "cs \<noteq> []" and "AT_NAME \<notin> set cs" and "AT_ADV \<notin> set cs"
    and "whole = notify_response self @ concat cs"
    and "int (length whole) \<le> response_size cmd"
    and "(\<forall>n. 3 \<le> n \<and> n < length whole \<longrightarrow> \<not> is_exception_response cmd (take n whole))
         \<or> (int (length whole) < response_size cmd \<and> 3 \<le> length whole
             \<and> is_exception_response cmd whole)"
  shows "notify_future (feed self cs) =
           Some (if int (length whole) = response_size cmd then
                   (if is_valid_response cmd whole then Resolved whole
                    else Failed (ParseError ''Failed checksum''))
                 else if is_exception_response cmd whole \<and> 3 \<le> length whole then
                   Failed (ModbusError (modbus_msg cmd (whole ! 2)))
                 else Pending)"
  using assms
proof (induction cs arbitrary: self)
  case Nil
  then show ?case by simp
next
  case (Cons c cs)
  let ?acc = "notify_response self @ c"
  let ?F = "if int (length whole) = response_size cmd then
              (if is_valid_response cmd whole then Resolved whole
               else Failed (ParseError ''Failed checksum''))
            else if is_exception_response cmd whole \<and> 3 \<le> length whole then
              Failed (ModbusError (modbus_msg cmd (whole ! 2)))
            else Pending"
  from Cons.prems have not_at: "c \<noteq> AT_NAME" "c \<noteq> AT_ADV" by auto
  have whole: "whole = ?acc @ concat cs" using Cons.prems by simp
  then have len: "length whole = length ?acc + length (concat cs)"
    by (simp only: length_append)
  have prefix: "take (length ?acc) whole = ?acc" using whole by simp
  note handler = notification_handler_append
    [OF Cons.prems(1) not_at Cons.prems(2), where acc = ?acc, OF refl]
  consider (full) "int (length ?acc) = response_size cmd"
    | (exc) "int (length ?acc) \<noteq> response_size cmd" "is_exception_response cmd ?acc"
        "3 \<le> length ?acc"
    | (more) "int (length ?acc) \<noteq> response_size cmd"
        "\<not> is_exception_response cmd ?acc \<or> length ?acc < 3"
    by fastforce
  then show ?case
  proof cases
    case full
    with len Cons.prems(7) have "length (concat cs) = 0" by linarith
    then have "concat cs = []" by (simp only: length_0_conv)
    with whole have acc: "?acc = whole" by simp
    have step: "deliver self c =
        self\<lparr>notify_response := whole,
             notify_future := Some (if is_valid_response cmd whole then Resolved whole
                                    else Failed (ParseError ''Failed checksum''))\<rparr>"
      using handler full acc by (simp add: deliver_def)
    have "feed (deliver self c) cs = deliver self c"
      by (rule feed_settled) (simp add: step)
    with step full acc show ?thesis by (simp add: feed_Cons)
  next
    case exc
    have step: "deliver self c =
        self\<lparr>notify_response := ?acc,
             notify_future := Some (Failed (ModbusError (modbus_msg cmd (?acc ! 2))))\<rparr>"
      using handler exc by (simp add: deliver_def)
    have settled: "feed (deliver self c) cs = deliver self c"
      by (rule feed_settled) (simp add: step)
    from exc(3) have lt: "2 < length ?acc" by linarith
    have byte: "?acc ! 2 = whole ! 2"
      unfolding whole using lt by (simp only: nth_append if_True)
    have target: "int (length whole) \<noteq> response_size cmd
                  \<and> is_exception_response cmd whole \<and> 3 \<le> length whole"
    proof (cases "length ?acc = length whole")
      case True
      with whole len have "?acc = whole" by simp
      with exc show ?thesis by simp
    next
      case False
      with len have shorter: "length ?acc < length whole" by simp
      have "\<not> (\<forall>n. 3 \<le> n \<and> n < length whole \<longrightarrow> \<not> is_exception_response cmd (take n whole))"
        using exc(2,3) shorter prefix by metis
      with Cons.prems(8) show ?thesis by auto
    qed
    from step settled byte target show ?thesis by (simp add: feed_Cons)
  next
    case more
    have step: "deliver self c = self\<lparr>notify_response := ?acc\<rparr>"
      using handler more by (auto simp: deliver_def)
    show ?thesis
    proof (cases "cs = []")
      case True
      with whole have "?acc = whole" by simp
      with step more True Cons.prems(1) show ?thesis
        by (auto simp: feed_def)
    next
      case False
      have "notify_future (feed (deliver self c) cs) = Some ?F"
      proof (rule Cons.IH)
        show "notify_future (deliver self c) = Some Pending"
          using step Cons.prems(1) by simp
        show "current_command (deliver self c) = Some cmd"
          using step Cons.prems(2) by simp
        show "cs \<noteq> []" by (rule False)
        show "AT_NAME \<notin> set cs" "AT_ADV \<notin> set cs" using Cons.prems by auto
        show "whole = notify_response (deliver self c) @ concat cs"
          using step whole by simp
        show "int (length whole) \<le> response_size cmd" by (rule Cons.prems(7))
        show "(\<forall>n. 3 \<le> n \<and> n < length whole \<longrightarrow> \<not> is_exception_response cmd (take n whole))
              \<or> (int (length whole) < response_size cmd \<and> 3 \<le> length whole
                  \<and> is_exception_response cmd whole)"
          by (rule Cons.prems(8))
      qed
      then show ?thesis by (simp add: feed_Cons)
    qed
  qed
qed

lemma feed_bounded:
  assumes "current_command self = Some cmd"
    and "int (length (notify_response self)) \<le> response_size cmd"
    and "\<exists>m. 0 < m \<and> m \<le> length cs
           \<and> int (length (notify_response self) + length (concat (take m cs))) = response_size cmd"
  shows "int (length (notify_response (feed self (take n cs)))) \<le> response_size cmd"
  using assms
proof (induction cs arbitrary: self n)
  case Nil
  then show ?case by simp
next
  case (Cons c cs)
  show ?case
  proof (cases n)
    case 0
    with Cons.prems(2) show ?thesis by (simp add: feed_def)
  next
    case (Suc n')
    then have unfold: "feed self (take n (c # cs)) = feed (deliver self c) (take n' cs)"
      by (simp add: feed_Cons)
    show ?thesis
    proof (cases "notify_future self = Some Pending \<and> c \<noteq> AT_NAME \<and> c \<noteq> AT_ADV")
      case False
      then have "\<exists>fut. notify_future (deliver self c) = Some fut \<and> future_done fut
                 \<or> notify_future (deliver self c) = None"
        and "notify_response (deliver self c) = notify_response self"
        by (auto simp: deliver_def notification_handler_def split: option.splits
            elim: future_done.elims)
      then have "feed (deliver self c) (take n' cs) = deliver self c"
        and "notify_response (deliver self c) = notify_response self"
        using feed_settled [of "deliver self c" "take n' cs"] by auto
      with unfold Cons.prems(2) show ?thesis by simp
    next
      case True
      then have pending: "notify_future self = Some Pending"
        and not_at: "c \<noteq> AT_NAME" "c \<noteq> AT_ADV" by simp_all
      note props = deliver_pending_append [OF pending Cons.prems(1) not_at]
      from Cons.prems(3) obtain m where m: "0 < m" "m \<le> length (c # cs)"
        "int (length (notify_response self) + length (concat (take m (c # cs)))) = response_size cmd"
        by blast
      then obtain m' where m': "m = Suc m'" by (cases m) auto
      with m have total:
        "int (length (notify_response self @ c) + length (concat (take m' cs))) = response_size cmd"
        and m'_le: "m' \<le> length cs"
        by (simp_all add: add.assoc)
      show ?thesis
      proof (cases m')
        case 0
        with total have "int (length (notify_response self @ c)) = response_size cmd" by simp
        then have "\<exists>fut. notify_future (deliver self c) = Some fut \<and> future_done fut"
          and len: "int (length (notify_response (deliver self c))) = response_size cmd"
          using props by simp_all
        then have "feed (deliver self c) (take n' cs) = deliver self c"
          using feed_settled by blast
        with unfold len show ?thesis by simp
      next
        case (Suc k)
        have "int (length (notify_response (feed (deliver self c) (take n' cs)))) \<le> response_size cmd"
        proof (rule Cons.IH)
          show "current_command (deliver self c) = Some cmd" by (rule props(2))
          show "int (length (notify_response (deliver self c))) \<le> response_size cmd"
            using props(1) total by simp
          show "\<exists>m. 0 < m \<and> m \<le> length cs
                  \<and> int (length (notify_response (deliver self c)) + length (concat (take m cs)))
                      = response_size cmd"
            using props(1) total m'_le Suc by (intro exI [of _ m']) simp
        qed
        with unfold show ?thesis by simp
      qed
    qed
  qed
qed

text \<open>
  Claim C2, amended. Take a pending request with an empty accumulator and a byte
  sequence split in any way into one or more notifications.
  \<^item> If the sequence is no longer than the command's expected length, or one of the
    notifications ends exactly at the expected length, then after every notification
    the accumulator is no longer than the expected length.
  \<^item> If no notification equals \<^verbatim>\<open>b"AT+NAME?\r"\<close> or \<^verbatim>\<open>b"AT+ADV?\r"\<close>, the sequence
    is no longer than the expected length, and either no proper prefix of three or
    more bytes passes the command's exception test, or the sequence is shorter than
    expected, has three or more bytes and passes the test itself, then the future ends
    up the same whatever the split: for a sequence of the expected length, resolved
    with it when its checksum is valid and failed with the parse error when not; for a
    shorter one, failed with the protocol error carrying its third byte when it
    passes the exception test with three or more bytes, and still unset otherwise.
\<close>

theorem outcome_independent_of_chunking:
  assumes "notify_future self = Some Pending" and "current_command self = Some cmd"
    and "notify_response self = []"
    and "concat cs = whole" and "cs \<noteq> []"
  shows "((int (length whole) \<le> response_size cmd
           \<or> (\<exists>m. 0 < m \<and> m \<le> length cs
                  \<and> int (length (concat (take m cs))) = response_size cmd))
          \<longrightarrow> (\<forall>n\<le>length cs.
                 int (length (notify_response (feed self (take n cs)))) \<le> response_size cmd))
         \<and> (AT_NAME \<notin> set cs \<and> AT_ADV \<notin> set cs
            \<and> int (length whole) \<le> response_size cmd
            \<and> ((\<forall>n. 3 \<le> n \<and> n < length whole
                       \<longrightarrow> \<not> is_exception_response cmd (take n whole))
                 \<or> (int (length whole) < response_size cmd \<and> 3 \<le> length whole
                     \<and> is_exception_response cmd whole))
            \<longrightarrow> notify_future (feed self cs) =
                  Some (if int (length whole) = response_size cmd then
                          (if is_valid_response cmd whole then Resolved whole
                           else Failed (ParseError ''Failed checksum''))
                        else if is_exception_response cmd whole \<and> 3 \<le> length whole then
                          Failed (ModbusError (modbus_msg cmd (whole ! 2)))
                        else Pending))"
proof (intro conjI impI)
  assume bound: "int (length whole) \<le> response_size cmd
           \<or> (\<exists>m. 0 < m \<and> m \<le> length cs
                  \<and> int (length (concat (take m cs))) = response_size cmd)"
  show "\<forall>n\<le>length cs.
          int (length (notify_response (feed self (take n cs)))) \<le> response_size cmd"
  proof (intro allI impI)
    fix n assume "n \<le> length cs"
    from bound show "int (length (notify_response (feed self (take n cs)))) \<le> response_size cmd"
    proof
      assume short: "int (length whole) \<le> response_size cmd"
      have "concat (take n cs) @ concat (drop n cs) = whole"
        using assms(4) by (metis append_take_drop_id concat_append)
      then have "length (concat (take n cs)) \<le> length whole"
        by (metis le_add1 length_append)
      moreover have
        "length (notify_response (feed self (take n cs))) \<le> length (concat (take n cs))"
        using feed_response_length [of self "take n cs"] assms(3) by simp
      ultimately show ?thesis using short by linarith
    next
      assume "\<exists>m. 0 < m \<and> m \<le> length cs
                \<and> int (length (concat (take m cs))) = response_size cmd"
      then obtain m where m: "0 < m" "m \<le> length cs"
        "int (length (concat (take m cs))) = response_size cmd"
        by blast
      show ?thesis
      proof (rule feed_bounded [OF assms(2)])
        show "int (length (notify_response self)) \<le> response_size cmd"
        proof -
          have "0 \<le> int (length (concat (take m cs)))" by simp
          with m(3) assms(3) show ?thesis by simp
        qed
        show "\<exists>m. 0 < m \<and> m \<le> length cs
                \<and> int (length (notify_response self) + length (concat (take m cs)))
                    = response_size cmd"
          using m assms(3) by (intro exI [of _ m]) simp
      qed
    qed
  qed
next
  assume hyps: "AT_NAME \<notin> set cs \<and> AT_ADV \<notin> set cs
      \<and> int (length whole) \<le> response_size cmd
      \<and> ((\<forall>n. 3 \<le> n \<and> n < length whole
                 \<longrightarrow> \<not> is_exception_response cmd (take n whole))
           \<or> (int (length whole) < response_size cmd \<and> 3 \<le> length whole
               \<and> is_exception_response cmd whole))"
  show "notify_future (feed self cs) =
          Some (if int (length whole) = response_size cmd then
                  (if is_valid_response cmd whole then Resolved whole
                   else Failed (ParseError ''Failed checksum''))
                else if is_exception_response cmd whole \<and> 3 \<le> length whole then
                  Failed (ModbusError (modbus_msg cmd (whole ! 2)))
                else Pending)"
  proof (rule feed_outcome [OF assms(1,2,5)])
    show "AT_NAME \<notin> set cs" "AT_ADV \<notin> set cs" using hyps by simp_all
    show "whole = notify_response self @ concat cs" using assms(3,4) by simp
    show "int (length whole) \<le> response_size cmd" using hyps by simp
    show "(\<forall>n. 3 \<le> n \<and> n < length whole
               \<longrightarrow> \<not> is_exception_response cmd (take n whole))
          \<or> (int (length whole) < response_size cmd \<and> 3 \<le> length whole
              \<and> is_exception_response cmd whole)"
      using hyps by simp
  qed
qed

section \<open>Properties of the poll cycle\<close>

lemma notification_handler_same_slot:
  assumes "same_slot a b"
  shows "fst (notification_handler a data) = fst (notification_handler b data)
         \<and> same_slot (snd (notification_handler a data)) (snd (notification_handler b data))"
  using assms
  by (auto simp: same_slot_def notification_handler_def Let_def split: option.splits)

lemma feed_same_slot: "same_slot a b \<Longrightarrow> same_slot (feed a cs) (feed b cs)"
proof (induction cs arbitrary: a b)
  case Nil
  then show ?case by (simp add: feed_def)
next
  case (Cons c cs)
  from Cons.prems have "same_slot (deliver a c) (deliver b c)"
    by (simp add: deliver_def notification_handler_same_slot)
  then have "same_slot (feed (deliver a c) cs) (feed (deliver b c) cs)"
    by (rule Cons.IH)
  then show ?case by (simp add: feed_def)
qed

lemma wait_for_same_slot:
  "same_slot a b \<Longrightarrow> fst (wait_for a d) = fst (wait_for b d)"
  by (auto simp: same_slot_def wait_for_def split: option.splits future.splits)

lemma begin_request_same_slot: "same_slot (begin_request a cmd) (begin_request b cmd)"
  by (simp add: same_slot_def begin_request_def)

lemma request_fst:
  "fst (request dev cmd ex self) =
     (case write_outcome ex of
        Raises err \<Rightarrow> Raises err
      | CycleTimeout \<Rightarrow> CycleTimeout
      | Returns u \<Rightarrow>
          (case fst (wait_for (feed (begin_request self cmd) (chunks ex)) (deadline ex)) of
             Raises err \<Rightarrow> Raises err
           | CycleTimeout \<Rightarrow> CycleTimeout
           | Returns res \<Rightarrow>
               (case parse_response cmd res of
                  Inl err \<Rightarrow> Raises err
                | Inr body \<Rightarrow>
                    (case parse dev (starting_address cmd) body of
                       Inl err \<Rightarrow> Raises err
                     | Inr parsed \<Rightarrow> Returns parsed))))"
  by (simp add: request_def Let_def split: outcome.splits prod.splits sum.splits)

lemma request_outcome: "fst (request dev cmd ex self) = command_outcome dev cmd ex"
proof -
  have "fst (wait_for (feed (begin_request self cmd) (chunks ex)) (deadline ex))
        = fst (wait_for (feed (begin_request (init_coordinator [] (Some dev)) cmd) (chunks ex))
                 (deadline ex))"
    by (intro wait_for_same_slot feed_same_slot begin_request_same_slot)
  then show ?thesis
    by (simp add: command_outcome_def request_fst split: outcome.splits)
qed

lemma request_events:
  "snd (snd (request dev cmd ex self)) = [WriteGattChar (cmd_bytes cmd)]"
  by (simp add: request_def Let_def split: outcome.splits prod.splits sum.splits)

lemma request_cases:
  obtains self1 where
    "request dev cmd ex self = (command_outcome dev cmd ex, self1, [WriteGattChar (cmd_bytes cmd)])"
proof -
  have "request dev cmd ex self =
          (fst (request dev cmd ex self), fst (snd (request dev cmd ex self)),
           snd (snd (request dev cmd ex self)))"
    by simp
  then show ?thesis
    using that by (simp only: request_outcome request_events)
qed

lemma poll_loop_goes_on:
  assumes "\<forall>j<length cmds. goes_on (command_outcome dev (cmds ! j) (exs (i + j)))"
  shows "\<exists>self1. poll_loop dev exs i cmds self pd =
           (Returns (), self1, merged_fields dev exs i cmds pd,
            map (\<lambda>c. WriteGattChar (cmd_bytes c)) cmds)"
  using assms
proof (induction cmds arbitrary: i self pd)
  case Nil
  then show ?case by simp
next
  case (Cons cmd cmds)
  obtain self1 where req:
    "request dev cmd (exs i) self = (command_outcome dev cmd (exs i), self1, [WriteGattChar (cmd_bytes cmd)])"
    by (rule request_cases)
  from Cons.prems have here: "goes_on (command_outcome dev cmd (exs i))"
    by force
  have rest: "\<forall>j<length cmds. goes_on (command_outcome dev (cmds ! j) (exs (Suc i + j)))"
  proof (intro allI impI)
    fix j assume "j < length cmds"
    then have "goes_on (command_outcome dev ((cmd # cmds) ! Suc j) (exs (i + Suc j)))"
      using Cons.prems by (metis Suc_less_eq length_Cons)
    then show "goes_on (command_outcome dev (cmds ! j) (exs (Suc i + j)))" by simp
  qed
  show ?case
  proof (cases "command_outcome dev cmd (exs i)")
    case (Returns parsed)
    from Cons.IH [OF rest, of self1 "dict_update pd parsed"] obtain self2 where
      "poll_loop dev exs (Suc i) cmds self1 (dict_update pd parsed) =
         (Returns (), self2, merged_fields dev exs (Suc i) cmds (dict_update pd parsed),
          map (\<lambda>c. WriteGattChar (cmd_bytes c)) cmds)"
      by blast
    with req Returns show ?thesis by simp
  next
    case (Raises err)
    with here have caught: "caught_in_loop err" by simp
    from Cons.IH [OF rest, of self1 pd] obtain self2 where
      "poll_loop dev exs (Suc i) cmds self1 pd =
         (Returns (), self2, merged_fields dev exs (Suc i) cmds pd,
          map (\<lambda>c. WriteGattChar (cmd_bytes c)) cmds)"
      by blast
    with req Raises caught show ?thesis by simp
  next
    case CycleTimeout
    with here show ?thesis by simp
  qed
qed

lemma poll_loop_events:
  "count_list (snd (snd (snd (poll_loop dev exs i cmds self pd)))) Disconnect = 0"
proof (induction cmds arbitrary: i self pd)
  case Nil
  then show ?case by simp
next
  case (Cons cmd cmds)
  obtain self1 where req:
    "request dev cmd (exs i) self = (command_outcome dev cmd (exs i), self1, [WriteGattChar (cmd_bytes cmd)])"
    by (rule request_cases)
  show ?case
  proof (cases "command_outcome dev cmd (exs i)")
    case (Returns parsed)
    obtain out self2 pd2 evs2 where rec:
      "poll_loop dev exs (Suc i) cmds self1 (dict_update pd parsed) = (out, self2, pd2, evs2)"
      using prod_cases4 by blast
    with Cons.IH [of "Suc i" self1 "dict_update pd parsed"] have "count_list evs2 Disconnect = 0"
      by simp
    with req Returns rec show ?thesis by simp
  next
    case (Raises err)
    obtain out self2 pd2 evs2 where rec:
      "poll_loop dev exs (Suc i) cmds self1 pd = (out, self2, pd2, evs2)"
      using prod_cases4 by blast
    with Cons.IH [of "Suc i" self1 pd] have "count_list evs2 Disconnect = 0"
      by simp
    with req Raises rec show ?thesis by simp
  next
    case CycleTimeout
    with req show ?thesis by simp
  qed
qed

lemma timed_block_events:
  "count_list (snd (snd (snd (timed_block env dev self)))) Disconnect = 0"
proof -
  obtain out self1 pd evs where rec:
    "poll_loop dev (exchanges env) 0 (polling_commands dev) self [] = (out, self1, pd, evs)"
    using prod_cases4 by blast
  with poll_loop_events [of dev "exchanges env" 0 "polling_commands dev" self "[]"]
  have "count_list evs Disconnect = 0" by simp
  with rec show ?thesis
    by (simp add: timed_block_def split: outcome.splits)
qed

lemma caught_outside_after_block:
  "caught_outside out \<Longrightarrow> after_block out pd = Inr None \<or> after_block out pd = Inr (Some pd)"
  by (cases "(out, pd)" rule: after_block.cases) auto

text \<open>
  Claim C9. When \<^verbatim>\<open>build_device\<close> returned \<^verbatim>\<open>None\<close> at construction time, every
  call of the cycle returns \<^verbatim>\<open>None\<close> with no call made on a client (no connection
  is attempted) and with the coordinator, so the future, the accumulator and the
  current command, unchanged.
\<close>

theorem unknown_device_type_returns_none:
  assumes "bluetti_device self = None"
  shows "async_update_data env self = (Inr None, self, [])"
  using assms by (simp add: async_update_data_def split: option.splits)

text \<open>
  Claim C7. Once the device handle is resolved and the device model is known, so
  that the client is created, every run of the cycle calls \<^verbatim>\<open>disconnect\<close> exactly
  once, as its last call on the client, whatever \<^verbatim>\<open>connect\<close>, \<^verbatim>\<open>start_notify\<close>,
  the commands and \<^verbatim>\<open>disconnect\<close> itself do (return, raise anything, or run into
  the cycle timer).
\<close>

theorem disconnect_exactly_once:
  assumes "async_ble_device_from_address env (address self) = Some handle"
    and "bluetti_device self = Some dev"
  shows "count_list (snd (snd (async_update_data env self))) Disconnect = 1
         \<and> last (snd (snd (async_update_data env self))) = Disconnect"
proof -
  obtain out self1 pd evs where blk: "timed_block env dev self = (out, self1, pd, evs)"
    using prod_cases4 by blast
  with timed_block_events [of env dev self] have "count_list evs Disconnect = 0" by simp
  with assms blk show ?thesis
    by (simp add: async_update_data_def)
qed

lemma recovers_goes_on: "recovers out \<Longrightarrow> goes_on out"
proof (cases out)
  case (Raises err)
  assume "recovers out"
  with Raises show ?thesis by (cases err) simp_all
qed simp_all

lemma poll_loop_raises_iff:
  "fst (poll_loop dev exs i cmds self pd) = Raises err \<longleftrightarrow>
     (\<exists>k<length cmds. (\<forall>j<k. goes_on (command_outcome dev (cmds ! j) (exs (i + j))))
        \<and> command_outcome dev (cmds ! k) (exs (i + k)) = Raises err
        \<and> \<not> caught_in_loop err)"
proof (induction cmds arbitrary: i self pd)
  case Nil
  then show ?case by simp
next
  case (Cons cmd cmds)
  obtain self1 where req:
    "request dev cmd (exs i) self = (command_outcome dev cmd (exs i), self1, [WriteGattChar (cmd_bytes cmd)])"
    by (rule request_cases)
  show ?case
  proof (cases "command_outcome dev cmd (exs i)")
    case (Returns parsed)
    with req Cons.IH [of "Suc i" self1 "dict_update pd parsed"] show ?thesis
      by (simp add: Ex_less_Suc2 All_less_Suc2 case_prod_beta)
  next
    case (Raises e)
    with req Cons.IH [of "Suc i" self1 pd] show ?thesis
      by (auto simp: Ex_less_Suc2 All_less_Suc2 case_prod_beta)
  next
    case CycleTimeout
    with req show ?thesis
      by (simp add: Ex_less_Suc2 All_less_Suc2)
  qed
qed

lemma poll_loop_writes_prefix:
  assumes "k < length cmds"
    and "\<forall>j<k. goes_on (command_outcome dev (cmds ! j) (exs (i + j)))"
  shows "take (Suc k) (snd (snd (snd (poll_loop dev exs i cmds self pd))))
         = map (\<lambda>c. WriteGattChar (cmd_bytes c)) (take (Suc k) cmds)"
  using assms
proof (induction cmds arbitrary: i k self pd)
  case Nil
  then show ?case by simp
next
  case (Cons cmd cmds)
  obtain self1 where req:
    "request dev cmd (exs i) self = (command_outcome dev cmd (exs i), self1, [WriteGattChar (cmd_bytes cmd)])"
    by (rule request_cases)
  show ?case
  proof (cases k)
    case 0
    with req show ?thesis
      by (cases "command_outcome dev cmd (exs i)") (simp_all add: case_prod_beta)
  next
    case (Suc k')
    with Cons.prems have here: "goes_on (command_outcome dev cmd (exs i))"
      and k': "k' < length cmds"
      and rest: "\<forall>j<k'. goes_on (command_outcome dev (cmds ! j) (exs (Suc i + j)))"
      by (force, simp, force)
    note IH = Cons.IH [OF k' rest]
    show ?thesis
    proof (cases "command_outcome dev cmd (exs i)")
      case (Returns parsed)
      with req Suc IH [of self1 "dict_update pd parsed"] show ?thesis
        by (simp add: case_prod_beta)
    next
      case (Raises e)
      with here have "caught_in_loop e" by simp
      with Raises req Suc IH [of self1 pd] show ?thesis
        by (simp add: case_prod_beta)
    next
      case CycleTimeout
      with here show ?thesis by simp
    qed
  qed
qed


lemma timed_block_exit:
  "fst (timed_block env dev self) =
     (case connect_outcome env of
        Raises e \<Rightarrow> Raises e
      | CycleTimeout \<Rightarrow> CycleTimeout
      | Returns u \<Rightarrow>
          (case start_notify_outcome env of
             Raises e \<Rightarrow> Raises e
           | CycleTimeout \<Rightarrow> CycleTimeout
           | Returns u \<Rightarrow> fst (poll_loop dev (exchanges env) 0 (polling_commands dev) self [])))"
  by (simp add: timed_block_def case_prod_beta split: outcome.splits)

lemma cycle_result:
  assumes "async_ble_device_from_address env (address self) = Some handle"
    and "bluetti_device self = Some dev"
  shows "fst (async_update_data env self) =
           (case disconnect_outcome env of
              None \<Rightarrow> after_block (fst (timed_block env dev self))
                        (fst (snd (snd (timed_block env dev self))))
            | Some err \<Rightarrow> Inl err)"
  using assms by (simp add: async_update_data_def case_prod_beta)

lemma after_block_Inl:
  "after_block out pd = Inl err \<longleftrightarrow> out = Raises err \<and> \<not> caught_outside (Raises err)"
  by (cases "(out, pd)" rule: after_block.cases) auto

lemma escapes_both: "\<not> caught_in_loop err \<Longrightarrow> \<not> caught_outside (Raises err)"
  by (cases err) simp_all

text \<open>
  Claim C6, amended. The cycle does not always return.
  \<^item> It returns \<^verbatim>\<open>None\<close> or a snapshot whenever, should the client be created,
    \<^verbatim>\<open>connect\<close> raises nothing but \<^verbatim>\<open>TimeoutError\<close> or \<^verbatim>\<open>BleakError\<close>, the same
    holds for \<^verbatim>\<open>start_notify\<close> if it is called, no command that the loop reaches
    (every command before it returned or raised one of the five classes the loop
    catches) raises an exception outside these five classes, and \<^verbatim>\<open>disconnect\<close>
    does not raise.
  \<^item> It raises \<open>err\<close> to its caller when the client is created and
    \<^verbatim>\<open>disconnect\<close> raises \<open>err\<close>, or \<^verbatim>\<open>disconnect\<close> returns and \<open>err\<close> is neither
    \<^verbatim>\<open>TimeoutError\<close> nor \<^verbatim>\<open>BleakError\<close> and is raised by \<^verbatim>\<open>connect\<close>, or by
    \<^verbatim>\<open>start_notify\<close> after \<^verbatim>\<open>connect\<close> returned, or, both having returned,
    \<open>err\<close> is outside the five classes and is raised by a command before which
    every command succeeded or failed with a response timeout, a parse error or a
    protocol exception.
\<close>

theorem cycle_raises_only_unhandled_errors:
  "((\<forall>handle dev.
        async_ble_device_from_address env (address self) = Some handle
        \<and> bluetti_device self = Some dev \<longrightarrow>
          caught_outside (connect_outcome env)
          \<and> (connect_outcome env = Returns () \<longrightarrow> caught_outside (start_notify_outcome env))
          \<and> (connect_outcome env = Returns () \<and> start_notify_outcome env = Returns () \<longrightarrow>
               (\<forall>k<length (polling_commands dev).
                   (\<forall>j<k. goes_on (command_outcome dev (polling_commands dev ! j)
                                      (exchanges env j)))
                   \<longrightarrow> no_escape (command_outcome dev (polling_commands dev ! k)
                                    (exchanges env k))))
          \<and> disconnect_outcome env = None)
      \<longrightarrow> fst (async_update_data env self) = Inr None
          \<or> (\<exists>parsed_data. fst (async_update_data env self) = Inr (Some parsed_data)))
   \<and> ((\<exists>handle dev.
          async_ble_device_from_address env (address self) = Some handle
          \<and> bluetti_device self = Some dev
          \<and> (disconnect_outcome env = Some err
              \<or> disconnect_outcome env = None
                \<and> (connect_outcome env = Raises err \<and> \<not> caught_outside (Raises err)
                    \<or> connect_outcome env = Returns ()
                      \<and> start_notify_outcome env = Raises err \<and> \<not> caught_outside (Raises err)
                    \<or> connect_outcome env = Returns () \<and> start_notify_outcome env = Returns ()
                      \<and> (\<exists>k<length (polling_commands dev).
                            (\<forall>j<k. recovers (command_outcome dev (polling_commands dev ! j)
                                               (exchanges env j)))
                            \<and> command_outcome dev (polling_commands dev ! k) (exchanges env k)
                                = Raises err
                            \<and> \<not> caught_in_loop err))))
      \<longrightarrow> fst (async_update_data env self) = Inl err)"
proof (intro conjI impI)
  assume handled: "\<forall>handle dev.
        async_ble_device_from_address env (address self) = Some handle
        \<and> bluetti_device self = Some dev \<longrightarrow>
          caught_outside (connect_outcome env)
          \<and> (connect_outcome env = Returns () \<longrightarrow> caught_outside (start_notify_outcome env))
          \<and> (connect_outcome env = Returns () \<and> start_notify_outcome env = Returns () \<longrightarrow>
               (\<forall>k<length (polling_commands dev).
                   (\<forall>j<k. goes_on (command_outcome dev (polling_commands dev ! j)
                                      (exchanges env j)))
                   \<longrightarrow> no_escape (command_outcome dev (polling_commands dev ! k)
                                    (exchanges env k))))
          \<and> disconnect_outcome env = None"
  show "fst (async_update_data env self) = Inr None
        \<or> (\<exists>parsed_data. fst (async_update_data env self) = Inr (Some parsed_data))"
  proof (cases "async_ble_device_from_address env (address self)")
    case None
    then show ?thesis by (simp add: async_update_data_def)
  next
    case (Some handle)
    show ?thesis
    proof (cases "bluetti_device self")
      case None
      with Some show ?thesis by (simp add: async_update_data_def)
    next
      case dev: (Some dev)
      from handled Some dev have conn: "caught_outside (connect_outcome env)"
        and sub: "connect_outcome env = Returns () \<Longrightarrow> caught_outside (start_notify_outcome env)"
        and loop: "connect_outcome env = Returns () \<Longrightarrow> start_notify_outcome env = Returns ()
          \<Longrightarrow> \<forall>k<length (polling_commands dev).
                (\<forall>j<k. goes_on (command_outcome dev (polling_commands dev ! j) (exchanges env j)))
                \<longrightarrow> no_escape (command_outcome dev (polling_commands dev ! k) (exchanges env k))"
        and disc: "disconnect_outcome env = None"
        by blast+
      let ?exit = "fst (timed_block env dev self)"
      have "caught_outside ?exit"
      proof (cases "connect_outcome env")
        case (Returns u)
        show ?thesis
        proof (cases "start_notify_outcome env")
          case started: (Returns v)
          have "\<And>e. fst (poll_loop dev (exchanges env) 0 (polling_commands dev) self []) \<noteq> Raises e"
          proof
            fix e
            assume "fst (poll_loop dev (exchanges env) 0 (polling_commands dev) self []) = Raises e"
            then obtain k where "k < length (polling_commands dev)"
              and "\<forall>j<k. goes_on (command_outcome dev (polling_commands dev ! j) (exchanges env j))"
              and "command_outcome dev (polling_commands dev ! k) (exchanges env k) = Raises e"
              and "\<not> caught_in_loop e"
              using poll_loop_raises_iff [of dev "exchanges env" 0 "polling_commands dev" self "[]" e]
              by auto
            moreover from loop Returns started have
              "\<forall>k<length (polling_commands dev).
                (\<forall>j<k. goes_on (command_outcome dev (polling_commands dev ! j) (exchanges env j)))
                \<longrightarrow> no_escape (command_outcome dev (polling_commands dev ! k) (exchanges env k))"
              by simp
            ultimately show False by auto
          qed
          then have "caught_outside (fst (poll_loop dev (exchanges env) 0 (polling_commands dev) self []))"
            by (cases "fst (poll_loop dev (exchanges env) 0 (polling_commands dev) self [])") auto
          with Returns started show ?thesis by (simp add: timed_block_exit)
        next
          case (Raises e)
          with Returns sub show ?thesis by (simp add: timed_block_exit)
        next
          case CycleTimeout
          with Returns show ?thesis by (simp add: timed_block_exit)
        qed
      next
        case (Raises e)
        with conn show ?thesis by (simp add: timed_block_exit)
      next
        case CycleTimeout
        then show ?thesis by (simp add: timed_block_exit)
      qed
      then have "after_block ?exit (fst (snd (snd (timed_block env dev self)))) = Inr None
                 \<or> after_block ?exit (fst (snd (snd (timed_block env dev self))))
                    = Inr (Some (fst (snd (snd (timed_block env dev self)))))"
        by (rule caught_outside_after_block)
      with cycle_result [OF Some dev] disc show ?thesis by auto
    qed
  qed
next
  assume "\<exists>handle dev.
          async_ble_device_from_address env (address self) = Some handle
          \<and> bluetti_device self = Some dev
          \<and> (disconnect_outcome env = Some err
              \<or> disconnect_outcome env = None
                \<and> (connect_outcome env = Raises err \<and> \<not> caught_outside (Raises err)
                    \<or> connect_outcome env = Returns ()
                      \<and> start_notify_outcome env = Raises err \<and> \<not> caught_outside (Raises err)
                    \<or> connect_outcome env = Returns () \<and> start_notify_outcome env = Returns ()
                      \<and> (\<exists>k<length (polling_commands dev).
                            (\<forall>j<k. recovers (command_outcome dev (polling_commands dev ! j)
                                               (exchanges env j)))
                            \<and> command_outcome dev (polling_commands dev ! k) (exchanges env k)
                                = Raises err
                            \<and> \<not> caught_in_loop err)))"
  then obtain handle dev where client:
      "async_ble_device_from_address env (address self) = Some handle"
      "bluetti_device self = Some dev"
    and how: "disconnect_outcome env = Some err
              \<or> disconnect_outcome env = None
                \<and> (connect_outcome env = Raises err \<and> \<not> caught_outside (Raises err)
                    \<or> connect_outcome env = Returns ()
                      \<and> start_notify_outcome env = Raises err \<and> \<not> caught_outside (Raises err)
                    \<or> connect_outcome env = Returns () \<and> start_notify_outcome env = Returns ()
                      \<and> (\<exists>k<length (polling_commands dev).
                            (\<forall>j<k. recovers (command_outcome dev (polling_commands dev ! j)
                                               (exchanges env j)))
                            \<and> command_outcome dev (polling_commands dev ! k) (exchanges env k)
                                = Raises err
                            \<and> \<not> caught_in_loop err))"
    by blast
  note result = cycle_result [OF client]
  from how show "fst (async_update_data env self) = Inl err"
  proof (elim disjE conjE)
    assume "disconnect_outcome env = Some err"
    with result show ?thesis by simp
  next
    assume "disconnect_outcome env = None" "connect_outcome env = Raises err"
      "\<not> caught_outside (Raises err)"
    with result show ?thesis by (simp add: timed_block_exit after_block_Inl)
  next
    assume "disconnect_outcome env = None" "connect_outcome env = Returns ()"
      "start_notify_outcome env = Raises err" "\<not> caught_outside (Raises err)"
    with result show ?thesis by (simp add: timed_block_exit after_block_Inl)
  next
    assume disc: "disconnect_outcome env = None" and conn: "connect_outcome env = Returns ()"
      and sub: "start_notify_outcome env = Returns ()"
      and "\<exists>k<length (polling_commands dev).
              (\<forall>j<k. recovers (command_outcome dev (polling_commands dev ! j) (exchanges env j)))
              \<and> command_outcome dev (polling_commands dev ! k) (exchanges env k) = Raises err
              \<and> \<not> caught_in_loop err"
    then obtain k where k: "k < length (polling_commands dev)"
      "\<forall>j<k. recovers (command_outcome dev (polling_commands dev ! j) (exchanges env j))"
      "command_outcome dev (polling_commands dev ! k) (exchanges env k) = Raises err"
      "\<not> caught_in_loop err"
      by blast
    from k(2) have "\<forall>j<k. goes_on (command_outcome dev (polling_commands dev ! j) (exchanges env j))"
      using recovers_goes_on by blast
    with k have "fst (poll_loop dev (exchanges env) 0 (polling_commands dev) self []) = Raises err"
      using poll_loop_raises_iff [of dev "exchanges env" 0 "polling_commands dev" self "[]" err]
      by auto
    with result disc conn sub k(4) show ?thesis
      by (simp add: timed_block_exit after_block_Inl escapes_both)
  qed
qed


lemma dict_update_keys: "fst ` set (dict_update d new) = fst ` set d \<union> fst ` set new"
proof (induction new arbitrary: d)
  case Nil
  then show ?case by (simp add: dict_update_def)
next
  case (Cons kv new)
  have "dict_update d (kv # new) = dict_update (AList.update (fst kv) (snd kv) d) new"
    by (simp add: dict_update_def)
  then show ?case
    by (auto simp: Cons.IH dom_update)
qed

lemma merged_fields_keys:
  "fst ` set (merged_fields dev exs i cmds pd) =
     fst ` set pd \<union>
     {k. \<exists>j<length cmds. \<exists>parsed.
            command_outcome dev (cmds ! j) (exs (i + j)) = Returns parsed
            \<and> k \<in> fst ` set parsed}"
proof (induction cmds arbitrary: i pd)
  case Nil
  then show ?case by simp
next
  case (Cons cmd cmds)
  show ?case
  proof (cases "command_outcome dev cmd (exs i)")
    case (Returns parsed)
    then show ?thesis
      by (simp add: Cons.IH dict_update_keys Ex_less_Suc2) blast
  next
    case (Raises err)
    then show ?thesis
      by (simp add: Cons.IH Ex_less_Suc2)
  next
    case CycleTimeout
    then show ?thesis
      by (simp add: Cons.IH Ex_less_Suc2)
  qed
qed

text \<open>
  Claim C8, amended. Take a run in which the connection is established.
  \<^item> Whenever every command before position \<open>k\<close> of the polling list succeeded or
    failed with a response timeout, a parse error or a protocol exception, the command
    at position \<open>k\<close> is written: after such an error the loop continues with the
    next command, whatever happens later.
  \<^item> If every command of the list succeeds or fails with one of these three errors
    (so the cycle timer does not expire during the loop) and \<^verbatim>\<open>disconnect\<close> does not
    raise, the cycle returns the snapshot that merges the fields of the commands that
    succeeded, not \<^verbatim>\<open>None\<close>; a failed command adds nothing: the keys of the snapshot
    are exactly the keys parsed from the commands that succeeded.
\<close>

theorem recoverable_errors_keep_the_cycle_going:
  assumes "async_ble_device_from_address env (address self) = Some handle"
    and "bluetti_device self = Some dev"
    and "connect_outcome env = Returns ()"
    and "start_notify_outcome env = Returns ()"
  shows "(\<forall>k<length (polling_commands dev).
            (\<forall>j<k. recovers (command_outcome dev (polling_commands dev ! j) (exchanges env j)))
            \<longrightarrow> take (k + 3) (snd (snd (async_update_data env self)))
                = [Connect, StartNotify]
                  @ map (\<lambda>c. WriteGattChar (cmd_bytes c)) (take (Suc k) (polling_commands dev)))
         \<and> ((\<forall>j<length (polling_commands dev).
                recovers (command_outcome dev (polling_commands dev ! j) (exchanges env j)))
             \<and> disconnect_outcome env = None
            \<longrightarrow> fst (async_update_data env self)
                  = Inr (Some (merged_fields dev (exchanges env) 0 (polling_commands dev) []))
                \<and> fst ` set (merged_fields dev (exchanges env) 0 (polling_commands dev) [])
                  = {k. \<exists>j<length (polling_commands dev). \<exists>parsed.
                          command_outcome dev (polling_commands dev ! j) (exchanges env j)
                            = Returns parsed
                          \<and> k \<in> fst ` set parsed})"
proof (intro conjI allI impI)
  fix k
  assume k: "k < length (polling_commands dev)"
    and before: "\<forall>j<k. recovers (command_outcome dev (polling_commands dev ! j) (exchanges env j))"
  obtain out self1 pd evs where loop:
    "poll_loop dev (exchanges env) 0 (polling_commands dev) self [] = (out, self1, pd, evs)"
    using prod_cases4 by blast
  from before have
    "\<forall>j<k. goes_on (command_outcome dev (polling_commands dev ! j) (exchanges env (0 + j)))"
    using recovers_goes_on by auto
  from poll_loop_writes_prefix [OF k this, of self "[]"] loop
  have writes: "take (Suc k) evs
                = map (\<lambda>c. WriteGattChar (cmd_bytes c)) (take (Suc k) (polling_commands dev))"
    by simp
  then have "length (take (Suc k) evs) = Suc k"
    using k by simp
  then have enough: "Suc k \<le> length evs" by simp
  have "snd (snd (async_update_data env self)) = [Connect, StartNotify] @ evs @ [Disconnect]"
    using assms loop by (simp add: async_update_data_def timed_block_def)
  then have "take (k + 3) (snd (snd (async_update_data env self)))
             = [Connect, StartNotify] @ take (Suc k) evs"
    using enough by (simp add: numeral_3_eq_3)
  with writes show "take (k + 3) (snd (snd (async_update_data env self)))
      = [Connect, StartNotify]
        @ map (\<lambda>c. WriteGattChar (cmd_bytes c)) (take (Suc k) (polling_commands dev))"
    by simp
next
  assume all: "(\<forall>j<length (polling_commands dev).
                  recovers (command_outcome dev (polling_commands dev ! j) (exchanges env j)))
               \<and> disconnect_outcome env = None"
  then have
    "\<forall>j<length (polling_commands dev).
        goes_on (command_outcome dev (polling_commands dev ! j) (exchanges env (0 + j)))"
    using recovers_goes_on by auto
  from poll_loop_goes_on [OF this, of self "[]"] obtain self1 where
    "poll_loop dev (exchanges env) 0 (polling_commands dev) self [] =
       (Returns (), self1, merged_fields dev (exchanges env) 0 (polling_commands dev) [],
        map (\<lambda>c. WriteGattChar (cmd_bytes c)) (polling_commands dev))"
    by blast
  with assms all show "fst (async_update_data env self)
      = Inr (Some (merged_fields dev (exchanges env) 0 (polling_commands dev) []))"
    by (simp add: async_update_data_def timed_block_def)
next
  show "fst ` set (merged_fields dev (exchanges env) 0 (polling_commands dev) [])
       = {k. \<exists>j<length (polling_commands dev). \<exists>parsed.
               command_outcome dev (polling_commands dev ! j) (exchanges env j) = Returns parsed
               \<and> k \<in> fst ` set parsed}"
    using merged_fields_keys [of dev "exchanges env" 0 "polling_commands dev" "[]"] by simp
qed

section \<open>Sample runs\<close>

lemma sample_fields [simp]:
  "polling_commands sample_device = [read_registers 10 1, read_registers 20 1, read_registers 30 1]"
  "parse sample_device a body = Inr (reg_fields a body)"
  "bluetti_device sample_coordinator = Some sample_device"
  "address sample_coordinator = ''AA:BB:CC:DD:EE:FF''"
  by (simp_all add: sample_device_def sample_coordinator_def init_coordinator_def)

lemma sample_env_fields [simp]:
  "async_ble_device_from_address (sample_env exs disc) a = Some 0"
  "connect_outcome (sample_env exs disc) = Returns ()"
  "start_notify_outcome (sample_env exs disc) = Returns ()"
  "exchanges (sample_env exs disc) = exs"
  "disconnect_outcome (sample_env exs disc) = disc"
  by (simp_all add: sample_env_def)

lemma read_registers_fields [simp]:
  "response_size (read_registers a q) = 2 * int q + 5"
  "is_valid_response (read_registers a q) = sample_valid"
  "is_exception_response (read_registers a q) = sample_exception"
  "parse_response (read_registers a q) r = Inr (take (length r - 5) (drop 3 r))"
  "starting_address (read_registers a q) = a"
  by (simp_all add: read_registers_def)

lemma exchange_fields [simp]:
  "write_outcome (answered cs) = Returns ()" "chunks (answered cs) = cs"
  "deadline (answered cs) = False"
  "write_outcome overdue = Returns ()" "chunks overdue = []" "deadline overdue = True"
  by (simp_all add: answered_def overdue_def)

lemma command_outcome_silent: "command_outcome dev cmd silent = Raises TimeoutError"
  by (simp add: command_outcome_def request_fst silent_def feed_def begin_request_def wait_for_def)

lemma command_outcome_overdue: "command_outcome dev cmd overdue = CycleTimeout"
  by (simp add: command_outcome_def request_fst feed_def begin_request_def wait_for_def)

lemma command_outcome_bad_connection:
  "command_outcome dev cmd (answered [AT_ADV]) = Raises (BadConnectionError ''Got AT+ notification'')"
  by (simp add: command_outcome_def request_fst feed_def deliver_def
      begin_request_def wait_for_def notification_handler_bad_connection)

lemma command_outcome_chunked:
  assumes "cs \<noteq> []" and "AT_NAME \<notin> set cs" and "AT_ADV \<notin> set cs"
    and "int (length (concat cs)) = response_size cmd"
    and "\<forall>n<length (concat cs). \<not> is_exception_response cmd (take n (concat cs))"
    and "is_valid_response cmd (concat cs)"
  shows "command_outcome dev cmd (answered cs) =
           (case parse_response cmd (concat cs) of
              Inl err \<Rightarrow> Raises err
            | Inr body \<Rightarrow>
                (case parse dev (starting_address cmd) body of
                   Inl err \<Rightarrow> Raises err
                 | Inr parsed \<Rightarrow> Returns parsed))"
proof -
  let ?self = "begin_request (init_coordinator [] (Some dev)) cmd"
  have "feed ?self cs = ?self\<lparr>notify_response := concat cs,
          notify_future := Some (if is_valid_response cmd (concat cs) then Resolved (concat cs)
                                 else Failed (ParseError ''Failed checksum''))\<rparr>"
    using assms by (intro feed_chunked) (simp_all add: begin_request_def)
  with assms(6) have "notify_future (feed ?self cs) = Some (Resolved (concat cs))"
    by simp
  then show ?thesis
    by (simp add: command_outcome_def request_fst wait_for_def)
qed

lemma sample_exception_prefix: "r ! 1 \<noteq> 0x83 \<Longrightarrow> \<not> sample_exception (take n r)"
  by (simp add: sample_exception_def)

lemma frame_simps [simp]:
  "length (frame b) = length b + 2"
  "take (length b) (frame b) = b"
  by (simp_all add: frame_def crc_bytes_def)

lemma command_outcome_reply:
  assumes "cs \<noteq> []" and "concat cs = frame [1, 3, 2, hi, lo]"
    and "\<forall>c\<in>set cs. length c < 8"
  shows "command_outcome sample_device (read_registers a (Suc 0)) (answered cs)
         = Returns [(''r'' @ str_nat a, 256 * uint hi + uint lo)]"
proof -
  from assms(3) have "AT_NAME \<notin> set cs" "AT_ADV \<notin> set cs"
    using short_not_AT by blast+
  moreover have "\<forall>n<length (concat cs). \<not> is_exception_response (read_registers a 1) (take n (concat cs))"
    by (simp add: assms(2) sample_exception_prefix frame_def)
  moreover have "is_valid_response (read_registers a 1) (concat cs)"
    by (simp add: assms(2) sample_valid_frame)
  moreover have "int (length (concat cs)) = response_size (read_registers a 1)"
    by (simp add: assms(2))
  ultimately have "command_outcome sample_device (read_registers a 1) (answered cs) =
           (case parse_response (read_registers a 1) (concat cs) of
              Inl err \<Rightarrow> Raises err
            | Inr body \<Rightarrow>
                (case parse sample_device (starting_address (read_registers a 1)) body of
                   Inl err \<Rightarrow> Raises err
                 | Inr parsed \<Rightarrow> Returns parsed))"
    using assms(1) by (intro command_outcome_chunked)
  then show ?thesis
    by (simp add: assms(2)) (simp add: frame_def)
qed


lemma str_nat_samples [simp]: "str_nat 10 = ''10''" "str_nat 20 = ''20''" "str_nat 30 = ''30''"
  by (simp_all add: str_nat.simps digit_char_def)

lemma link_outcomes:
  "command_outcome sample_device (read_registers 10 1) (faulty_link 0) = Returns [(''r10'', 100)]"
  "command_outcome sample_device (read_registers 20 1) (faulty_link (Suc 0))
     = Raises (BadConnectionError ''Got AT+ notification'')"
  "command_outcome sample_device (read_registers 30 1) (faulty_link (Suc (Suc 0))) = Returns [(''r30'', 256)]"
  "command_outcome sample_device (read_registers 10 1) (slow_link 0) = Returns [(''r10'', 100)]"
  "command_outcome sample_device (read_registers 20 1) (slow_link (Suc 0)) = Raises TimeoutError"
  "command_outcome sample_device (read_registers 30 1) (slow_link (Suc (Suc 0))) = CycleTimeout"
  "command_outcome sample_device (read_registers 10 1) (patchy_link 0) = Returns [(''r10'', 100)]"
  "command_outcome sample_device (read_registers 20 1) (patchy_link (Suc 0)) = Raises TimeoutError"
  "command_outcome sample_device (read_registers 30 1) (patchy_link (Suc (Suc 0))) = Returns [(''r30'', 256)]"
  by (simp_all add: faulty_link_def slow_link_def patchy_link_def command_outcome_silent
      command_outcome_overdue command_outcome_bad_connection reply_100_def reply_256_def
      command_outcome_reply)


lemmas link_outcomes_Suc = link_outcomes [unfolded One_nat_def]

lemma poll_loop_Cons:
  "poll_loop dev exs i (cmd # cmds) self pd =
     (let self1 = fst (snd (request dev cmd (exs i) self));
          evs = [WriteGattChar (cmd_bytes cmd)]
      in case command_outcome dev cmd (exs i) of
           Returns parsed \<Rightarrow>
             (case poll_loop dev exs (Suc i) cmds self1 (dict_update pd parsed) of
                (out, self2, pd2, evs2) \<Rightarrow> (out, self2, pd2, evs @ evs2))
         | Raises err \<Rightarrow>
             if caught_in_loop err then
               (case poll_loop dev exs (Suc i) cmds self1 pd of
                  (out, self2, pd2, evs2) \<Rightarrow> (out, self2, pd2, evs @ evs2))
             else (Raises err, self1, pd, evs)
         | CycleTimeout \<Rightarrow> (CycleTimeout, self1, pd, evs))"
proof -
  obtain self1 where req:
    "request dev cmd (exs i) self = (command_outcome dev cmd (exs i), self1, [WriteGattChar (cmd_bytes cmd)])"
    by (rule request_cases)
  then show ?thesis by (simp add: Let_def split: outcome.splits)
qed

lemma dict_update_samples [simp]:
  "dict_update [] [kv] = [kv]"
  by (cases kv) (simp add: dict_update_def)

text \<open>
  Claim C1. On the sample device with the faulty link, the second of three commands
  fails with \<^verbatim>\<open>BadConnectionError\<close>. The \<^verbatim>\<open>except (BadConnectionError, BleakError)\<close>
  clause only logs, so the loop goes on: the third command is written as well and its
  fields reach the snapshot, next to those of the first command.
\<close>

theorem bad_connection_does_not_stop_the_loop:
  "command_outcome sample_device (read_registers 20 1) (faulty_link 1)
     = Raises (BadConnectionError ''Got AT+ notification'')
   \<and> fst (async_update_data (sample_env faulty_link None) sample_coordinator)
     = Inr (Some [(''r10'', 100), (''r30'', 256)])
   \<and> snd (snd (async_update_data (sample_env faulty_link None) sample_coordinator))
     = [Connect, StartNotify,
        WriteGattChar (cmd_bytes (read_registers 10 1)),
        WriteGattChar (cmd_bytes (read_registers 20 1)),
        WriteGattChar (cmd_bytes (read_registers 30 1)),
        Disconnect]"
  by (simp add: async_update_data_def timed_block_def poll_loop_Cons link_outcomes_Suc
      dict_update_def del: poll_loop.simps(2))

lemma disconnect_raises:
  assumes "async_ble_device_from_address env (address self) = Some handle"
    and "bluetti_device self = Some dev" and "disconnect_outcome env = Some err"
  shows "fst (async_update_data env self) = Inl err"
  using assms by (simp add: async_update_data_def split: prod.splits)

lemma command_outcome_broken:
  "command_outcome dev cmd broken = Raises (OtherError ''ValueError'')"
  by (simp add: command_outcome_def request_fst broken_def)

lemma broken_link_outcomes:
  "command_outcome sample_device (read_registers 10 (Suc 0)) (broken_link 0) = Raises TimeoutError"
  "command_outcome sample_device (read_registers 20 (Suc 0)) (broken_link (Suc 0))
     = Raises (OtherError ''ValueError'')"
  by (simp_all add: broken_link_def command_outcome_silent command_outcome_broken)

text \<open>
  Against claim C8 as stated. On the slow link the connection is established, the
  first command succeeds and the second fails with a response timeout, which the
  loop catches; the cycle timer then expires during the third command, and the
  cycle returns \<^verbatim>\<open>None\<close>, not the fields of the first command. On the broken link
  the first command fails with a response timeout and the write of the second
  raises an exception the loop does not catch: the cycle raises. On the patchy link
  the second command fails with a response timeout and \<^verbatim>\<open>disconnect\<close> raises: the
  cycle raises.
\<close>

theorem later_cycle_timeout_discards_snapshot:
  "connect_outcome (sample_env slow_link None) = Returns ()
   \<and> start_notify_outcome (sample_env slow_link None) = Returns ()
   \<and> command_outcome sample_device (read_registers 10 1) (slow_link 0) = Returns [(''r10'', 100)]
   \<and> command_outcome sample_device (read_registers 20 1) (slow_link 1) = Raises TimeoutError
   \<and> fst (async_update_data (sample_env slow_link None) sample_coordinator) = Inr None
   \<and> command_outcome sample_device (read_registers 10 1) (broken_link 0) = Raises TimeoutError
   \<and> fst (async_update_data (sample_env broken_link None) sample_coordinator)
       = Inl (OtherError ''ValueError'')
   \<and> command_outcome sample_device (read_registers 20 1) (patchy_link 1) = Raises TimeoutError
   \<and> fst (async_update_data (sample_env patchy_link (Some (BleakError ''Not connected'')))
            sample_coordinator)
       = Inl (BleakError ''Not connected'')"
proof -
  have "fst (async_update_data (sample_env patchy_link (Some (BleakError ''Not connected'')))
          sample_coordinator) = Inl (BleakError ''Not connected'')"
    by (rule disconnect_raises [where handle = 0 and dev = sample_device]) simp_all
  then show ?thesis
    by (simp add: async_update_data_def timed_block_def poll_loop_Cons link_outcomes_Suc
        broken_link_outcomes dict_update_def del: poll_loop.simps(2))
qed

text \<open>
  Against claim C6 as stated: a \<^verbatim>\<open>BleakError\<close> raised by \<^verbatim>\<open>disconnect\<close> in the
  \<^verbatim>\<open>finally\<close> clause, and an exception of \<^verbatim>\<open>connect\<close> that is neither
  \<^verbatim>\<open>TimeoutError\<close> nor \<^verbatim>\<open>BleakError\<close>, both reach the caller.
\<close>

theorem cycle_raises_to_caller:
  "fst (async_update_data (sample_env patchy_link (Some (BleakError ''Not connected'')))
          sample_coordinator) = Inl (BleakError ''Not connected'')
   \<and> fst (async_update_data
            ((sample_env patchy_link None)\<lparr>connect_outcome := Raises (OtherError ''OSError'')\<rparr>)
            sample_coordinator) = Inl (OtherError ''OSError'')"
proof
  show "fst (async_update_data (sample_env patchy_link (Some (BleakError ''Not connected'')))
          sample_coordinator) = Inl (BleakError ''Not connected'')"
    by (rule disconnect_raises [where handle = 0 and dev = sample_device]) simp_all
next
  show "fst (async_update_data
            ((sample_env patchy_link None)\<lparr>connect_outcome := Raises (OtherError ''OSError'')\<rparr>)
            sample_coordinator) = Inl (OtherError ''OSError'')"
    by (simp add: async_update_data_def timed_block_def sample_env_def)
qed

theorem unknown_device_type_returns_none_witness:
  "bluetti_device (init_coordinator ''AA:BB:CC:DD:EE:FF'' None :: int coordinator) = None
   \<and> async_update_data (sample_env patchy_link None)
        (init_coordinator ''AA:BB:CC:DD:EE:FF'' None :: int coordinator)
       = (Inr None, init_coordinator ''AA:BB:CC:DD:EE:FF'' None, [])"
  using unknown_device_type_returns_none
    [of "init_coordinator ''AA:BB:CC:DD:EE:FF'' None :: int coordinator" "sample_env patchy_link None"]
  by (simp add: init_coordinator_def)

theorem disconnect_exactly_once_witness:
  "async_ble_device_from_address
      ((sample_env patchy_link None)\<lparr>start_notify_outcome := Raises (BleakError ''Not connected'')\<rparr>)
      (address sample_coordinator) = Some 0
   \<and> bluetti_device sample_coordinator = Some sample_device
   \<and> count_list (snd (snd (async_update_data
        ((sample_env patchy_link None)\<lparr>start_notify_outcome := Raises (BleakError ''Not connected'')\<rparr>)
        sample_coordinator))) Disconnect = 1
   \<and> last (snd (snd (async_update_data
        ((sample_env patchy_link None)\<lparr>start_notify_outcome := Raises (BleakError ''Not connected'')\<rparr>)
        sample_coordinator))) = Disconnect"
  using disconnect_exactly_once
    [of "(sample_env patchy_link None)\<lparr>start_notify_outcome := Raises (BleakError ''Not connected'')\<rparr>"
        sample_coordinator 0 sample_device]
  by (simp add: sample_env_def)

theorem cycle_raises_only_unhandled_errors_witness:
  "fst (async_update_data (sample_env slow_link None) sample_coordinator) = Inr None
   \<and> fst (async_update_data (sample_env broken_link None) sample_coordinator)
       = Inl (OtherError ''ValueError'')"
proof -
  let ?env = "sample_env slow_link None"
  have "\<forall>handle dev.
        async_ble_device_from_address ?env (address sample_coordinator) = Some handle
        \<and> bluetti_device sample_coordinator = Some dev \<longrightarrow>
          caught_outside (connect_outcome ?env)
          \<and> (connect_outcome ?env = Returns () \<longrightarrow> caught_outside (start_notify_outcome ?env))
          \<and> (connect_outcome ?env = Returns () \<and> start_notify_outcome ?env = Returns () \<longrightarrow>
               (\<forall>k<length (polling_commands dev).
                   (\<forall>j<k. goes_on (command_outcome dev (polling_commands dev ! j)
                                      (exchanges ?env j)))
                   \<longrightarrow> no_escape (command_outcome dev (polling_commands dev ! k)
                                    (exchanges ?env k))))
          \<and> disconnect_outcome ?env = None"
    by (auto simp: less_Suc_eq link_outcomes_Suc)
  then have "fst (async_update_data ?env sample_coordinator) = Inr None
     \<or> (\<exists>parsed_data. fst (async_update_data ?env sample_coordinator) = Inr (Some parsed_data))"
    using cycle_raises_only_unhandled_errors [of ?env sample_coordinator] by blast
  moreover have "fst (async_update_data ?env sample_coordinator) = Inr None"
    by (simp add: async_update_data_def timed_block_def poll_loop_Cons link_outcomes_Suc
        dict_update_def del: poll_loop.simps(2))
  ultimately have first: "fst (async_update_data ?env sample_coordinator) = Inr None"
    by simp
  let ?env' = "sample_env broken_link None"
  have "\<exists>k<length (polling_commands sample_device).
          (\<forall>j<k. recovers (command_outcome sample_device (polling_commands sample_device ! j)
                              (exchanges ?env' j)))
          \<and> command_outcome sample_device (polling_commands sample_device ! k) (exchanges ?env' k)
              = Raises (OtherError ''ValueError'')
          \<and> \<not> caught_in_loop (OtherError ''ValueError'')"
    by (intro exI [of _ "Suc 0"]) (simp add: broken_link_outcomes)
  then have "\<exists>handle dev.
          async_ble_device_from_address ?env' (address sample_coordinator) = Some handle
          \<and> bluetti_device sample_coordinator = Some dev
          \<and> (disconnect_outcome ?env' = Some (OtherError ''ValueError'')
              \<or> disconnect_outcome ?env' = None
                \<and> (connect_outcome ?env' = Raises (OtherError ''ValueError'')
                      \<and> \<not> caught_outside (Raises (OtherError ''ValueError''))
                    \<or> connect_outcome ?env' = Returns ()
                      \<and> start_notify_outcome ?env' = Raises (OtherError ''ValueError'')
                      \<and> \<not> caught_outside (Raises (OtherError ''ValueError''))
                    \<or> connect_outcome ?env' = Returns () \<and> start_notify_outcome ?env' = Returns ()
                      \<and> (\<exists>k<length (polling_commands dev).
                            (\<forall>j<k. recovers (command_outcome dev (polling_commands dev ! j)
                                               (exchanges ?env' j)))
                            \<and> command_outcome dev (polling_commands dev ! k) (exchanges ?env' k)
                                = Raises (OtherError ''ValueError'')
                            \<and> \<not> caught_in_loop (OtherError ''ValueError''))))"
    by (intro exI [of _ 0] exI [of _ sample_device]) simp
  then have second: "fst (async_update_data ?env' sample_coordinator) = Inl (OtherError ''ValueError'')"
    using cycle_raises_only_unhandled_errors
      [of ?env' sample_coordinator "OtherError ''ValueError''"] by blast
  from first second show ?thesis by simp
qed

theorem recoverable_errors_keep_the_cycle_going_witness:
  "async_ble_device_from_address (sample_env patchy_link None) (address sample_coordinator) = Some 0
   \<and> bluetti_device sample_coordinator = Some sample_device
   \<and> connect_outcome (sample_env patchy_link None) = Returns ()
   \<and> start_notify_outcome (sample_env patchy_link None) = Returns ()
   \<and> command_outcome sample_device (read_registers 10 1) (slow_link 0) = Returns [(''r10'', 100)]
   \<and> command_outcome sample_device (read_registers 20 1) (slow_link 1) = Raises TimeoutError
   \<and> take 5 (snd (snd (async_update_data (sample_env slow_link None) sample_coordinator)))
       = [Connect, StartNotify,
          WriteGattChar (cmd_bytes (read_registers 10 1)),
          WriteGattChar (cmd_bytes (read_registers 20 1)),
          WriteGattChar (cmd_bytes (read_registers 30 1))]
   \<and> command_outcome sample_device (read_registers 10 1) (patchy_link 0) = Returns [(''r10'', 100)]
   \<and> command_outcome sample_device (read_registers 20 1) (patchy_link 1) = Raises TimeoutError
   \<and> command_outcome sample_device (read_registers 30 1) (patchy_link 2) = Returns [(''r30'', 256)]
   \<and> disconnect_outcome (sample_env patchy_link None) = None
   \<and> fst (async_update_data (sample_env patchy_link None) sample_coordinator)
       = Inr (Some [(''r10'', 100), (''r30'', 256)])"
proof -
  have slow_pre:
    "async_ble_device_from_address (sample_env slow_link None) (address sample_coordinator) = Some 0"
    "bluetti_device sample_coordinator = Some sample_device"
    "connect_outcome (sample_env slow_link None) = Returns ()"
    "start_notify_outcome (sample_env slow_link None) = Returns ()"
    by simp_all
  have k: "2 < length (polling_commands sample_device)" by simp
  have before: "\<forall>j<2. recovers (command_outcome sample_device (polling_commands sample_device ! j)
                                   (exchanges (sample_env slow_link None) j))"
    by (auto simp: less_Suc_eq numeral_2_eq_2 link_outcomes_Suc)
  from recoverable_errors_keep_the_cycle_going
    [OF slow_pre, THEN conjunct1, rule_format, OF k before [rule_format]]
  have "take (2 + 3) (snd (snd (async_update_data (sample_env slow_link None) sample_coordinator)))
      = [Connect, StartNotify]
        @ map (\<lambda>c. WriteGattChar (cmd_bytes c)) (take (Suc 2) (polling_commands sample_device))" .
  then have first:
    "take 5 (snd (snd (async_update_data (sample_env slow_link None) sample_coordinator)))
       = [Connect, StartNotify,
          WriteGattChar (cmd_bytes (read_registers 10 1)),
          WriteGattChar (cmd_bytes (read_registers 20 1)),
          WriteGattChar (cmd_bytes (read_registers 30 1))]"
    by simp
  have patchy_pre:
    "async_ble_device_from_address (sample_env patchy_link None) (address sample_coordinator) = Some 0"
    "bluetti_device sample_coordinator = Some sample_device"
    "connect_outcome (sample_env patchy_link None) = Returns ()"
    "start_notify_outcome (sample_env patchy_link None) = Returns ()"
    by simp_all
  have all: "(\<forall>j<length (polling_commands sample_device).
          recovers (command_outcome sample_device (polling_commands sample_device ! j)
                      (exchanges (sample_env patchy_link None) j)))
        \<and> disconnect_outcome (sample_env patchy_link None) = None"
    by (auto simp: less_Suc_eq link_outcomes_Suc)
  from recoverable_errors_keep_the_cycle_going
    [OF patchy_pre, THEN conjunct2, rule_format, OF all, THEN conjunct1]
  have "fst (async_update_data (sample_env patchy_link None) sample_coordinator)
      = Inr (Some (merged_fields sample_device (exchanges (sample_env patchy_link None)) 0
                     (polling_commands sample_device) []))" .
  then have second: "fst (async_update_data (sample_env patchy_link None) sample_coordinator)
       = Inr (Some [(''r10'', 100), (''r30'', 256)])"
    by (simp add: link_outcomes_Suc dict_update_def)
  from first second show ?thesis
    by (simp add: link_outcomes_Suc numeral_2_eq_2)
qed

lemma crc_AT_NAME_steps:
  "crc_byte 0xFFFF 0x41 = 28799" "crc_byte 28799 0x54 = 7984" "crc_byte 7984 0x2B = 2911"
  "crc_byte 2911 0x4E = 3275" "crc_byte 3275 0x41 = 42893" "crc_byte 42893 0x4D = 20647"
  "crc_byte 20647 0x45 = 18896"
  by code_simp+

lemma crc_AT_NAME: "modbus_crc [0x41, 0x54, 0x2B, 0x4E, 0x41, 0x4D, 0x45] = 18896"
  by (simp add: modbus_crc_def crc_AT_NAME_steps)

lemma crc_AT_NAME_bytes:
  "(ucast (18896 :: 16 word) :: byte) = 208" "(ucast (drop_bit 8 (18896 :: 16 word)) :: byte) = 73"
  by code_simp+

lemma AT_NAME_checksum: "\<not> sample_valid AT_NAME"
  by (simp add: sample_valid_def AT_NAME_def crc_bytes_def crc_AT_NAME crc_AT_NAME_bytes)

lemma short_chunks_not_AT:
  "\<forall>c\<in>set cs. length c < 8 \<Longrightarrow> AT_NAME \<notin> set cs \<and> AT_ADV \<notin> set cs"
  using short_not_AT by blast

lemma split_AT_NAME:
  "feed (begin_request sample_coordinator (read_registers 10 2)) [take 3 AT_NAME, drop 3 AT_NAME]
   = (begin_request sample_coordinator (read_registers 10 2))
       \<lparr>notify_response := AT_NAME, notify_future := Some (Failed (ParseError ''Failed checksum''))\<rparr>"
proof -
  have "\<forall>c\<in>set [take 3 AT_NAME, drop 3 AT_NAME]. length c < 8"
    by (simp add: AT_NAME_def)
  then have "AT_NAME \<notin> set [take 3 AT_NAME, drop 3 AT_NAME]"
    and "AT_ADV \<notin> set [take 3 AT_NAME, drop 3 AT_NAME]"
    using short_chunks_not_AT by blast+
  moreover have "\<forall>n<length AT_NAME. \<not> is_exception_response (read_registers 10 2) (take n AT_NAME)"
    by (simp add: sample_exception_prefix AT_NAME_def)
  moreover have "int (length AT_NAME) = response_size (read_registers 10 2)"
    by (simp add: AT_NAME_def)
  ultimately have
    "feed (begin_request sample_coordinator (read_registers 10 2)) [take 3 AT_NAME, drop 3 AT_NAME]
     = (begin_request sample_coordinator (read_registers 10 2))
         \<lparr>notify_response := AT_NAME,
          notify_future := Some (if is_valid_response (read_registers 10 2) AT_NAME
                                 then Resolved AT_NAME
                                 else Failed (ParseError ''Failed checksum''))\<rparr>"
    by (intro feed_chunked) (simp_all add: begin_request_def)
  then show ?thesis by (simp add: AT_NAME_checksum)
qed

lemma whole_AT_NAME:
  "feed (begin_request sample_coordinator (read_registers 10 2)) [AT_NAME]
   = (begin_request sample_coordinator (read_registers 10 2))
       \<lparr>notify_future := Some (Failed (BadConnectionError ''Got AT+ notification''))\<rparr>"
  by (simp add: feed_def deliver_def notification_handler_bad_connection begin_request_def)

lemma odd_reply_length: "length odd_reply = 9"
  by (simp add: odd_reply_def)

lemma odd_reply_not_AT: "odd_reply \<noteq> AT_NAME" "odd_reply \<noteq> AT_ADV"
  "take 5 odd_reply \<noteq> AT_NAME" "take 5 odd_reply \<noteq> AT_ADV"
  by (simp_all add: odd_reply_def frame_def AT_NAME_def AT_ADV_def)

lemma whole_odd_reply:
  "feed (begin_request sample_coordinator (read_registers 10 2)) [odd_reply]
   = (begin_request sample_coordinator (read_registers 10 2))
       \<lparr>notify_response := odd_reply, notify_future := Some (Resolved odd_reply)\<rparr>"
proof -
  have "sample_valid odd_reply"
    unfolding odd_reply_def by (rule sample_valid_frame) simp
  then show ?thesis
    using odd_reply_not_AT odd_reply_length
    by (simp add: feed_def deliver_def begin_request_def
        notification_handler_append [where cmd = "read_registers 10 2" and acc = odd_reply])
qed

lemma split_odd_reply:
  "notify_future (feed (begin_request sample_coordinator (read_registers 10 2))
                    [take 5 odd_reply, drop 5 odd_reply])
   = Some (Failed (ModbusError (modbus_msg (read_registers 10 2) 2)))"
proof -
  let ?self = "begin_request sample_coordinator (read_registers 10 2)"
  have first: "deliver ?self (take 5 odd_reply)
        = ?self\<lparr>notify_response := take 5 odd_reply,
                 notify_future := Some (Failed (ModbusError
                   (modbus_msg (read_registers 10 2) (take 5 odd_reply ! 2))))\<rparr>"
    using odd_reply_not_AT
    by (simp add: deliver_def begin_request_def
        notification_handler_append [where cmd = "read_registers 10 2" and acc = "take 5 odd_reply"])
       (simp add: odd_reply_def frame_def sample_exception_def)
  have "feed ?self [take 5 odd_reply, drop 5 odd_reply] = deliver ?self (take 5 odd_reply)"
    by (simp add: feed_def first deliver_settled)
  moreover have "take 5 odd_reply ! 2 = 2"
    by (simp add: odd_reply_def frame_def)
  ultimately show ?thesis using first by simp
qed

lemma long_reply_facts:
  "length long_reply = 9" "length reply_100 = 7"
  "concat [take 4 long_reply, drop 4 long_reply] = concat [reply_100, [0, 0]]"
  "\<not> sample_exception (take 4 long_reply)" "\<not> sample_exception long_reply"
  "take 4 long_reply \<noteq> AT_NAME" "take 4 long_reply \<noteq> AT_ADV"
  "drop 4 long_reply \<noteq> AT_NAME" "drop 4 long_reply \<noteq> AT_ADV"
  by (simp_all add: long_reply_def reply_100_def frame_def crc_bytes_def sample_exception_def
      AT_NAME_def AT_ADV_def)

lemma whole_then_stray:
  "feed (begin_request sample_coordinator (read_registers 10 (Suc 0))) [reply_100, [0, 0]]
   = (begin_request sample_coordinator (read_registers 10 (Suc 0)))
       \<lparr>notify_response := reply_100, notify_future := Some (Resolved reply_100)\<rparr>"
proof -
  let ?self = "begin_request sample_coordinator (read_registers 10 (Suc 0))"
  have "\<forall>c\<in>set [reply_100]. length c < 8"
    by (simp add: long_reply_facts)
  then have "AT_NAME \<notin> set [reply_100]" "AT_ADV \<notin> set [reply_100]"
    using short_chunks_not_AT by blast+
  moreover have "\<forall>n<length reply_100.
      \<not> is_exception_response (read_registers 10 (Suc 0)) (take n reply_100)"
    by (simp add: sample_exception_prefix reply_100_def frame_def)
  moreover have "int (length reply_100) = response_size (read_registers 10 (Suc 0))"
    by (simp add: long_reply_facts)
  ultimately have "feed ?self [reply_100] =
      ?self\<lparr>notify_response := reply_100,
             notify_future := Some (if is_valid_response (read_registers 10 (Suc 0)) reply_100
                                    then Resolved reply_100
                                    else Failed (ParseError ''Failed checksum''))\<rparr>"
    by (intro feed_chunked) (simp_all add: begin_request_def)
  then have first: "deliver ?self reply_100 =
      ?self\<lparr>notify_response := reply_100, notify_future := Some (Resolved reply_100)\<rparr>"
    by (simp add: feed_def reply_100_def sample_valid_frame)
  have "feed ?self [reply_100, [0, 0]] = feed (deliver ?self reply_100) [[0, 0]]"
    by (simp add: feed_def)
  also have "\<dots> = deliver ?self reply_100"
    by (rule feed_settled) (simp add: first)
  finally show ?thesis using first by simp
qed

lemma stray_split:
  "feed (begin_request sample_coordinator (read_registers 10 (Suc 0)))
     [take 4 long_reply, drop 4 long_reply]
   = (begin_request sample_coordinator (read_registers 10 (Suc 0)))\<lparr>notify_response := long_reply\<rparr>"
proof -
  let ?self = "begin_request sample_coordinator (read_registers 10 (Suc 0))"
  have first: "deliver ?self (take 4 long_reply) = ?self\<lparr>notify_response := take 4 long_reply\<rparr>"
    using long_reply_facts
    by (simp add: deliver_def begin_request_def
        notification_handler_append [where cmd = "read_registers 10 (Suc 0)" and acc = "take 4 long_reply"])
  have second: "deliver (?self\<lparr>notify_response := take 4 long_reply\<rparr>) (drop 4 long_reply)
                = ?self\<lparr>notify_response := long_reply\<rparr>"
    using long_reply_facts
    by (simp add: deliver_def begin_request_def
        notification_handler_append [where cmd = "read_registers 10 (Suc 0)" and acc = long_reply])
  show ?thesis by (simp add: feed_def first second)
qed

text \<open>
  Against claim C2 as stated. For a command that expects nine bytes: the nine bytes
  of \<^verbatim>\<open>b"AT+NAME?\r"\<close> in one notification fail the request with
  \<^verbatim>\<open>BadConnectionError\<close>, split three and six they are accumulated and fail the
  checksum; a valid nine-byte frame whose second byte is the exception code resolves
  the request in one notification, while split five and four its first part already
  passes the exception test and fails the request with \<^verbatim>\<open>ModbusError\<close>. For a
  command that expects seven bytes and a sequence of nine: split seven and two the
  request is resolved with the first seven bytes; split four and five no check
  fires, the accumulator grows to nine bytes and the request stays pending.
\<close>

theorem outcome_depends_on_chunking:
  "concat [take 3 AT_NAME, drop 3 AT_NAME] = concat [AT_NAME]
   \<and> int (length AT_NAME) = response_size (read_registers 10 2)
   \<and> notify_future (feed (begin_request sample_coordinator (read_registers 10 2)) [AT_NAME])
       = Some (Failed (BadConnectionError ''Got AT+ notification''))
   \<and> notify_future (feed (begin_request sample_coordinator (read_registers 10 2))
                        [take 3 AT_NAME, drop 3 AT_NAME])
       = Some (Failed (ParseError ''Failed checksum''))
   \<and> concat [take 5 odd_reply, drop 5 odd_reply] = concat [odd_reply]
   \<and> int (length odd_reply) = response_size (read_registers 10 2)
   \<and> notify_future (feed (begin_request sample_coordinator (read_registers 10 2)) [odd_reply])
       = Some (Resolved odd_reply)
   \<and> notify_future (feed (begin_request sample_coordinator (read_registers 10 2))
                        [take 5 odd_reply, drop 5 odd_reply])
       = Some (Failed (ModbusError (modbus_msg (read_registers 10 2) 2)))
   \<and> concat [take 4 long_reply, drop 4 long_reply] = concat [reply_100, [0, 0]]
   \<and> notify_future (feed (begin_request sample_coordinator (read_registers 10 1))
                        [reply_100, [0, 0]])
       = Some (Resolved reply_100)
   \<and> notify_future (feed (begin_request sample_coordinator (read_registers 10 1))
                        [take 4 long_reply, drop 4 long_reply])
       = Some Pending
   \<and> response_size (read_registers 10 1)
       < int (length (notify_response
               (feed (begin_request sample_coordinator (read_registers 10 1))
                  [take 4 long_reply, drop 4 long_reply])))"
  by (simp add: split_AT_NAME whole_AT_NAME whole_odd_reply split_odd_reply odd_reply_length
        whole_then_stray stray_split long_reply_facts)
     (simp add: AT_NAME_def begin_request_def long_reply_def)


lemma exception_reply_facts:
  "length exception_reply = 5" "exception_reply ! 2 = 2" "sample_exception exception_reply"
  "concat [take 1 exception_reply, drop 1 exception_reply] = exception_reply"
  "\<forall>c\<in>set [take 1 exception_reply, drop 1 exception_reply]. length c < 8"
  by (simp_all add: exception_reply_def frame_def crc_bytes_def sample_exception_def)

theorem outcome_independent_of_chunking_witness:
  "notify_future (begin_request sample_coordinator (read_registers 10 1)) = Some Pending
   \<and> current_command (begin_request sample_coordinator (read_registers 10 1))
       = Some (read_registers 10 1)
   \<and> notify_response (begin_request sample_coordinator (read_registers 10 1)) = []
   \<and> int (length (notify_response (feed (begin_request sample_coordinator (read_registers 10 1))
                                        (take 2 [reply_100, [0, 0]]))))
       \<le> response_size (read_registers 10 1)
   \<and> notify_future (feed (begin_request sample_coordinator (read_registers 10 1))
                        [take 4 reply_100, drop 4 reply_100])
       = Some (Resolved reply_100)
   \<and> notify_future (feed (begin_request sample_coordinator (read_registers 10 1))
                        [take 1 exception_reply, drop 1 exception_reply])
       = Some (Failed (ModbusError (modbus_msg (read_registers 10 1) 2)))"
proof -
  let ?self = "begin_request sample_coordinator (read_registers 10 1)"
  let ?cmd = "read_registers 10 1"
  let ?F = "\<lambda>whole. if int (length whole) = response_size ?cmd then
                     (if is_valid_response ?cmd whole then Resolved whole
                      else Failed (ParseError ''Failed checksum''))
                   else if is_exception_response ?cmd whole \<and> 3 \<le> length whole then
                     Failed (ModbusError (modbus_msg ?cmd (whole ! 2)))
                   else Pending"
  have pre: "notify_future ?self = Some Pending" "current_command ?self = Some ?cmd"
    "notify_response ?self = []"
    by (simp_all add: begin_request_def)
  \<comment> \<open>a notification ends at the expected length, two stray bytes follow\<close>
  have "\<exists>m. 0 < m \<and> m \<le> length [reply_100, [0, 0 :: byte]]
          \<and> int (length (concat (take m [reply_100, [0, 0]]))) = response_size ?cmd"
    by (intro exI [of _ 1]) (simp add: long_reply_facts)
  then have "\<forall>n\<le>length [reply_100, [0, 0 :: byte]].
      int (length (notify_response (feed ?self (take n [reply_100, [0, 0]]))))
        \<le> response_size ?cmd"
    using outcome_independent_of_chunking [OF pre refl, of "[reply_100, [0, 0]]"] by blast
  from this [rule_format, of 2]
  have first: "int (length (notify_response (feed ?self (take 2 [reply_100, [0, 0]]))))
               \<le> response_size ?cmd"
    by simp
  \<comment> \<open>a whole response in two notifications\<close>
  have "\<forall>c\<in>set [take 4 reply_100, drop 4 reply_100]. length c < 8"
    by (simp add: long_reply_facts)
  then have at: "AT_NAME \<notin> set [take 4 reply_100, drop 4 reply_100]
                 \<and> AT_ADV \<notin> set [take 4 reply_100, drop 4 reply_100]"
    by (rule short_chunks_not_AT)
  have whole: "concat [take 4 reply_100, drop 4 reply_100] = reply_100" by simp
  have len: "int (length reply_100) \<le> response_size ?cmd"
    by (simp add: long_reply_facts)
  have "\<forall>n. 3 \<le> n \<and> n < length reply_100 \<longrightarrow> \<not> is_exception_response ?cmd (take n reply_100)"
    by (simp add: sample_exception_prefix reply_100_def frame_def)
  with at len have "notify_future (feed ?self [take 4 reply_100, drop 4 reply_100])
                    = Some (?F reply_100)"
    using outcome_independent_of_chunking [OF pre whole] by blast
  then have second: "notify_future (feed ?self [take 4 reply_100, drop 4 reply_100])
                     = Some (Resolved reply_100)"
    by (simp add: long_reply_facts) (simp add: reply_100_def sample_valid_frame)
  \<comment> \<open>an exception frame in two notifications\<close>
  have at': "AT_NAME \<notin> set [take 1 exception_reply, drop 1 exception_reply]
             \<and> AT_ADV \<notin> set [take 1 exception_reply, drop 1 exception_reply]"
    using exception_reply_facts(5) by (rule short_chunks_not_AT)
  have "int (length exception_reply) < response_size ?cmd \<and> 3 \<le> length exception_reply
        \<and> is_exception_response ?cmd exception_reply"
    by (simp add: exception_reply_facts)
  with at' have "notify_future (feed ?self [take 1 exception_reply, drop 1 exception_reply])
                 = Some (?F exception_reply)"
    using outcome_independent_of_chunking [OF pre exception_reply_facts(4)] by force
  then have third: "notify_future (feed ?self [take 1 exception_reply, drop 1 exception_reply])
               = Some (Failed (ModbusError (modbus_msg ?cmd 2)))"
    by (simp add: exception_reply_facts)
  from pre first second third show ?thesis by simp
qed

end
